theory Spec2Isabelle
  imports Complex_Main "HOL-Library.Multiset" "HOL-Library.Monad_Syntax"
begin

section \<open>Request values\<close>

text \<open>
  \<^verbatim>\<open>server.js\<close> reads its inputs from \<^verbatim>\<open>req.body\<close> (a parsed JSON object) and
  \<^verbatim>\<open>req.query\<close> (the URL's query string). A JSON value is modelled by \<open>jsval\<close>; arrays
  and objects are not inspected by the handlers and are one constructor. A field that is
  absent from the body reads as \<open>JUndefined\<close>, as destructuring does in JavaScript.
\<close>

datatype jsval = JUndefined | JNull | JBool bool | JNum real | JStr string | JObject

type_synonym jsobject = "string \<Rightarrow> jsval"

text \<open>JavaScript's conversion to boolean, which \<^verbatim>\<open>!x\<close> negates.\<close>

fun truthy :: "jsval \<Rightarrow> bool" where
  "truthy JUndefined = False"
| "truthy JNull = False"
| "truthy (JBool b) = b"
| "truthy (JNum x) = (x \<noteq> 0)"
| "truthy (JStr s) = (s \<noteq> [])"
| "truthy JObject = True"

text \<open>A query string gives each parameter at most one text value.\<close>

type_synonym query = "string \<rightharpoonup> string"

definition query_param :: "query \<Rightarrow> string \<Rightarrow> jsval" where
  "query_param q k = (case q k of None \<Rightarrow> JUndefined | Some s \<Rightarrow> JStr s)"

definition query_text :: "query \<Rightarrow> string \<Rightarrow> string" where
  "query_text q k = (case q k of None \<Rightarrow> [] | Some s \<Rightarrow> s)"

text \<open>
  The three failures the handlers answer with: status 400 (\<open>ValidationError\<close>), status 409
  (\<open>DuplicateDonorError\<close>) and status 500 (\<open>StorageError\<close>).
\<close>

datatype error = ValidationError | DuplicateDonorError | StorageError

section \<open>The donors table\<close>

text \<open>
  The columns of \<^verbatim>\<open>CREATE TABLE donors\<close>. The columns the search selects come first, so
  that a search result shares them. \<^verbatim>\<open>registration_date\<close> is written by the server's clock
  and read by neither handler; it is left out.
\<close>

record donor_public =
  donorId :: nat
  name :: string
  bloodGroup :: string
  phone :: string
  latitude :: real
  longitude :: real

record donor = donor_public +
  age :: int
  email :: string
  address :: string

record match = donor_public +
  distance :: real

text \<open>
  The connection pool \<^verbatim>\<open>db\<close>: the table's rows in storage order, the \<^verbatim>\<open>AUTO_INCREMENT\<close>
  counter, and whether the server answers at all. The counter decides only which id a new
  row gets; what a refused insert does to it is the storage engine's choice, and the
  statements about a refused insert below speak of the rows.
\<close>

record db =
  donors :: "donor list"
  next_id :: nat
  online :: bool

definition initializeDatabase :: db where
  "initializeDatabase = \<lparr>donors = [], next_id = 1, online = True\<rparr>"

text \<open>
  How the MySQL server converts a bound parameter to a column's type depends on the
  server's mode and is not part of \<^verbatim>\<open>server.js\<close>; the conversions are a parameter of the
  model. \<open>None\<close> is a value the column rejects (every column is \<^verbatim>\<open>NOT NULL\<close>).
  \<open>as_double\<close> gives the number a text parameter spells, which \<^verbatim>\<open>radians(?)\<close> is applied to
  after rounding to a double.
\<close>

record sql_casts =
  as_varchar :: "nat \<Rightarrow> jsval \<Rightarrow> string option"
  as_text :: "jsval \<Rightarrow> string option"
  as_int :: "jsval \<Rightarrow> int option"
  as_decimal :: "nat \<Rightarrow> nat \<Rightarrow> jsval \<Rightarrow> real option"
  as_double :: "string \<Rightarrow> real"

section \<open>POST /api/donors\<close>

text \<open>The guard \<^verbatim>\<open>!name || !age || !bloodGroup || !phone || !latitude || !longitude\<close>.\<close>

definition missing_required :: "jsobject \<Rightarrow> bool" where
  "missing_required body =
     (\<not> truthy (body ''name'') \<or> \<not> truthy (body ''age'') \<or> \<not> truthy (body ''bloodGroup'')
      \<or> \<not> truthy (body ''phone'') \<or> \<not> truthy (body ''latitude'')
      \<or> \<not> truthy (body ''longitude''))"

text \<open>The row that \<^verbatim>\<open>insertQuery\<close> builds from its eight parameters, with the given id.\<close>

definition insert_values :: "sql_casts \<Rightarrow> nat \<Rightarrow> jsobject \<Rightarrow> donor option" where
  "insert_values cs i body = do {
     n \<leftarrow> as_varchar cs 255 (body ''name'');
     a \<leftarrow> as_int cs (body ''age'');
     g \<leftarrow> as_varchar cs 3 (body ''bloodGroup'');
     p \<leftarrow> as_varchar cs 20 (body ''phone'');
     e \<leftarrow> as_varchar cs 255 (body ''email'');
     ad \<leftarrow> as_text cs (body ''address'');
     la \<leftarrow> as_decimal cs 10 8 (body ''latitude'');
     lo \<leftarrow> as_decimal cs 11 8 (body ''longitude'');
     Some \<lparr>donorId = i, name = n, bloodGroup = g, phone = p, latitude = la, longitude = lo,
            age = a, email = e, address = ad\<rparr>
   }"

datatype sql_error = ER_DUP_ENTRY | ER_OTHER

text \<open>
  \<^verbatim>\<open>db.query(insertQuery, [...])\<close>: the row is built, the \<^verbatim>\<open>UNIQUE\<close> index on \<^verbatim>\<open>phone\<close> is
  checked, and the row is appended under the next id.
\<close>

definition insert_query :: "sql_casts \<Rightarrow> db \<Rightarrow> jsobject \<Rightarrow> (sql_error + nat) \<times> db" where
  "insert_query cs d body =
     (if \<not> online d then (Inl ER_OTHER, d)
      else case insert_values cs (next_id d) body of
        None \<Rightarrow> (Inl ER_OTHER, d)
      | Some r \<Rightarrow>
          if phone r \<in> set (map phone (donors d)) then (Inl ER_DUP_ENTRY, d)
          else (Inr (next_id d), d\<lparr>donors := donors d @ [r], next_id := Suc (next_id d)\<rparr>))"

text \<open>The \<^verbatim>\<open>try\<close>/\<^verbatim>\<open>catch\<close> around the insert: status 201, 409 for \<^verbatim>\<open>ER_DUP_ENTRY\<close>, 500 otherwise.\<close>

fun respond :: "(sql_error + nat) \<times> db \<Rightarrow> (error + nat) \<times> db" where
  "respond (Inr i, d) = (Inr i, d)"
| "respond (Inl ER_DUP_ENTRY, d) = (Inl DuplicateDonorError, d)"
| "respond (Inl ER_OTHER, d) = (Inl StorageError, d)"

definition register_donor :: "sql_casts \<Rightarrow> db \<Rightarrow> jsobject \<Rightarrow> (error + nat) \<times> db" where
  "register_donor cs d body =
     (if missing_required body then (Inl ValidationError, d)
      else respond (insert_query cs d body))"

text \<open>A sequence of registration requests, served one after the other.\<close>

fun register_all :: "sql_casts \<Rightarrow> db \<Rightarrow> jsobject list \<Rightarrow> db" where
  "register_all cs d [] = d"
| "register_all cs d (b # bs) = register_all cs (snd (register_donor cs d b)) bs"

section \<open>Double-precision arithmetic\<close>

text \<open>
  MySQL evaluates \<^verbatim>\<open>RADIANS\<close>, \<^verbatim>\<open>COS\<close>, \<^verbatim>\<open>SIN\<close>, \<^verbatim>\<open>ACOS\<close> and the products and sums between
  them in IEEE 754 binary64. A double is modelled by the real number it stands for, and
  an operation by the exact operation followed by the rounding \<open>dbl\<close> to the nearest
  double, ties to the even significand. \<open>rne\<close> rounds a real number to the nearest integer,
  ties to even; \<open>dbl_exponent\<close> is the binary exponent of the result, which is at least that
  of the smallest normal number, so that subnormal numbers are spaced as they are.
  Coordinates and distances are far from the largest double: overflow is left out.
\<close>

definition rne :: "real \<Rightarrow> int" where
  "rne y = (let f = \<lfloor>y\<rfloor> in
     if y - of_int f < 1 / 2 then f
     else if 1 / 2 < y - of_int f then f + 1
     else if even f then f else f + 1)"

definition dbl_exponent :: "real \<Rightarrow> int" where
  "dbl_exponent x = max \<lfloor>log 2 \<bar>x\<bar>\<rfloor> (- 1022)"

definition dbl :: "real \<Rightarrow> real" where
  "dbl x = (if x = 0 then 0
     else of_int (rne (x / 2 powi (dbl_exponent x - 52))) * 2 powi (dbl_exponent x - 52))"

text \<open>The unit of roundoff: half the distance from 1 to the next double.\<close>

definition eps :: real where
  "eps = 1 / 2 ^ 53"

text \<open>
  The constant \<^verbatim>\<open>M_PI\<close> of the C library is the double nearest to \<open>\<pi>\<close>, and \<^verbatim>\<open>RADIANS(x)\<close> is
  \<^verbatim>\<open>x * (M_PI / 180)\<close>. The library functions are taken at their best: \<open>sql_cos\<close>, \<open>sql_sin\<close>
  and \<open>sql_acos\<close> return the double nearest to the exact value. \<^verbatim>\<open>ACOS\<close> is \<^verbatim>\<open>NULL\<close> outside
  \<open>[-1, 1]\<close>.
\<close>

definition M_PI :: real where
  "M_PI = dbl pi"

definition deg_to_rad :: real where
  "deg_to_rad = dbl (M_PI / 180)"

definition radians :: "real \<Rightarrow> real" where
  "radians x = dbl (x * deg_to_rad)"

definition sql_cos :: "real \<Rightarrow> real" where
  "sql_cos x = dbl (cos x)"

definition sql_sin :: "real \<Rightarrow> real" where
  "sql_sin x = dbl (sin x)"

definition sql_acos :: "real \<Rightarrow> real option" where
  "sql_acos x = (if - 1 \<le> x \<and> x \<le> 1 then Some (dbl (arccos x)) else None)"

section \<open>GET /api/donors/search\<close>

definition searchRadiusKm :: real where
  "searchRadiusKm = 15"

text \<open>The guard \<^verbatim>\<open>!latitude || !longitude || !bloodGroup\<close>.\<close>

definition missing_search :: "query \<Rightarrow> bool" where
  "missing_search q =
     (\<not> truthy (query_param q ''latitude'') \<or> \<not> truthy (query_param q ''longitude'')
      \<or> \<not> truthy (query_param q ''bloodGroup''))"

text \<open>
  The distance expression of \<^verbatim>\<open>searchQuery\<close>. \<open>acos_arg\<close> is the argument of \<^verbatim>\<open>acos\<close>, computed
  from left to right on doubles; \<^verbatim>\<open>NULL\<close> propagates through the product with 6371. The
  expression is applied to the origin's two parameters and the row's two \<^verbatim>\<open>DECIMAL\<close>
  columns, each converted to a double first.
\<close>

definition acos_arg :: "real \<Rightarrow> real \<Rightarrow> real \<Rightarrow> real \<Rightarrow> real" where
  "acos_arg lat0 lon0 lat lon =
     dbl (dbl (dbl (sql_cos (radians lat0) * sql_cos (radians lat))
               * sql_cos (dbl (radians lon - radians lon0)))
          + dbl (sql_sin (radians lat0) * sql_sin (radians lat)))"

definition distance_of_cosine :: "real \<Rightarrow> real option" where
  "distance_of_cosine x = map_option (\<lambda>a. dbl (6371 * a)) (sql_acos x)"

definition distance_expr :: "real \<Rightarrow> real \<Rightarrow> real \<Rightarrow> real \<Rightarrow> real option" where
  "distance_expr lat0 lon0 lat lon =
     distance_of_cosine (acos_arg (dbl lat0) (dbl lon0) (dbl lat) (dbl lon))"

text \<open>\<^verbatim>\<open>WHERE bloodGroup = ?\<close>\<close>

definition find_by_blood_group :: "string \<Rightarrow> donor list \<Rightarrow> donor list" where
  "find_by_blood_group bg ds = filter (\<lambda>d. bloodGroup d = bg) ds"

text \<open>The selected columns of one row, with its distance.\<close>

definition select_row :: "donor \<Rightarrow> real \<Rightarrow> match" where
  "select_row d x =
     \<lparr>donorId = donorId d, name = name d, bloodGroup = bloodGroup d, phone = phone d,
      latitude = latitude d, longitude = longitude d, distance = x\<rparr>"

text \<open>\<^verbatim>\<open>HAVING distance < ?\<close>: a row is kept when the comparison is true, which it is not for \<^verbatim>\<open>NULL\<close>.\<close>

fun select_having :: "real \<Rightarrow> real \<Rightarrow> real \<Rightarrow> donor list \<Rightarrow> match list" where
  "select_having lat0 lon0 r [] = []"
| "select_having lat0 lon0 r (d # ds) =
     (case distance_expr lat0 lon0 (latitude d) (longitude d) of
        None \<Rightarrow> select_having lat0 lon0 r ds
      | Some x \<Rightarrow>
          if x < r then select_row d x # select_having lat0 lon0 r ds
          else select_having lat0 lon0 r ds)"

text \<open>
  \<^verbatim>\<open>ORDER BY distance\<close> names one key. SQL fixes the order of the rows only as far as the
  key does, so the clause is a relation between the rows found and the rows returned.
\<close>

definition order_by_distance :: "match list \<Rightarrow> match list \<Rightarrow> bool" where
  "order_by_distance ms out = (mset out = mset ms \<and> sorted (map distance out))"

definition search_query ::
  "real \<Rightarrow> real \<Rightarrow> string \<Rightarrow> real \<Rightarrow> donor list \<Rightarrow> match list \<Rightarrow> bool" where
  "search_query lat0 lon0 bg r ds out =
     order_by_distance (select_having lat0 lon0 r (find_by_blood_group bg ds)) out"

text \<open>The origin of a search: the numbers MySQL reads from the two text parameters.\<close>

definition origin_latitude :: "sql_casts \<Rightarrow> query \<Rightarrow> real" where
  "origin_latitude cs q = as_double cs (query_text q ''latitude'')"

definition origin_longitude :: "sql_casts \<Rightarrow> query \<Rightarrow> real" where
  "origin_longitude cs q = as_double cs (query_text q ''longitude'')"

text \<open>The responses the search handler can give to a request.\<close>

definition search_donors :: "sql_casts \<Rightarrow> db \<Rightarrow> query \<Rightarrow> error + match list \<Rightarrow> bool" where
  "search_donors cs d q resp =
     (if missing_search q then resp = Inl ValidationError
      else if \<not> online d then resp = Inl StorageError
      else case resp of
        Inl e \<Rightarrow> False
      | Inr out \<Rightarrow>
          search_query (origin_latitude cs q) (origin_longitude cs q)
            (query_text q ''bloodGroup'') searchRadiusKm (donors d) out)"

text \<open>One admissible answer of \<^verbatim>\<open>ORDER BY\<close>: the stable insertion sort of the rows found.\<close>

definition search_stable :: "sql_casts \<Rightarrow> db \<Rightarrow> query \<Rightarrow> match list" where
  "search_stable cs d q =
     sort_key distance
       (select_having (origin_latitude cs q) (origin_longitude cs q) searchRadiusKm
          (find_by_blood_group (query_text q ''bloodGroup'') (donors d)))"

section \<open>The specification's distance\<close>

text \<open>
  The great-circle distance as the specification writes it: the spherical law of cosines
  over the real numbers, with the angles in radians and the Earth's radius 6371 km.
\<close>

definition spec_radians :: "real \<Rightarrow> real" where
  "spec_radians x = x * pi / 180"

definition spec_cosine :: "real \<Rightarrow> real \<Rightarrow> real \<Rightarrow> real \<Rightarrow> real" where
  "spec_cosine lat1 lon1 lat2 lon2 =
     cos (spec_radians lat1) * cos (spec_radians lat2) * cos (spec_radians (lon2 - lon1))
       + sin (spec_radians lat1) * sin (spec_radians lat2)"

definition spec_distance :: "real \<Rightarrow> real \<Rightarrow> real \<Rightarrow> real \<Rightarrow> real" where
  "spec_distance lat1 lon1 lat2 lon2 = 6371 * arccos (spec_cosine lat1 lon1 lat2 lon2)"

text \<open>The clamp to \<open>[-1, 1]\<close> that the specification asks for before the arc cosine.\<close>

definition spec_clamp :: "real \<Rightarrow> real" where
  "spec_clamp x = max (- 1) (min 1 x)"

section \<open>Example data\<close>

text \<open>A JSON object literal: a field that is not listed is absent.\<close>

definition obj :: "(string \<times> jsval) list \<Rightarrow> jsobject" where
  "obj kvs k = (case map_of kvs k of None \<Rightarrow> JUndefined | Some v \<Rightarrow> v)"

text \<open>
  A server for the examples: it stores a JSON string in a text column that is long
  enough, a JSON number in a numeric column that is wide enough, and reads the texts the
  examples use as the numbers they spell.
\<close>

definition example_casts :: sql_casts where
  "example_casts =
     \<lparr>as_varchar = (\<lambda>n v. case v of JStr s \<Rightarrow> if length s \<le> n then Some s else None | _ \<Rightarrow> None),
      as_text = (\<lambda>v. case v of JStr s \<Rightarrow> Some s | _ \<Rightarrow> None),
      as_int = (\<lambda>v. case v of JNum x \<Rightarrow> Some (round x) | _ \<Rightarrow> None),
      as_decimal = (\<lambda>p s v. case v of
                      JNum x \<Rightarrow> if \<bar>x\<bar> < 10 ^ (p - s) then Some x else None
                    | _ \<Rightarrow> None),
      as_double = (\<lambda>s. if s = ''28.6139'' then 28.6139
                        else if s = ''77.2090'' then 77.2090
                        else if s = ''100'' then 100
                        else if s = ''8'' then 8 else 0)\<rparr>"

definition asha :: jsobject where
  "asha = obj [(''name'', JStr ''Asha''), (''age'', JNum 30), (''bloodGroup'', JStr ''O+''),
               (''phone'', JStr ''9810000001''), (''email'', JStr ''asha@example.org''),
               (''address'', JStr ''Connaught Place, Delhi''),
               (''latitude'', JNum 28.6139), (''longitude'', JNum 77.2090)]"

definition asha_row :: donor where
  "asha_row = \<lparr>donorId = 1, name = ''Asha'', bloodGroup = ''O+'', phone = ''9810000001'',
                latitude = 28.6139, longitude = 77.2090, age = 30,
                email = ''asha@example.org'', address = ''Connaught Place, Delhi''\<rparr>"

text \<open>Two donors at one address in Rohini, and a search from Connaught Place.\<close>

definition meera :: jsobject where
  "meera = obj [(''name'', JStr ''Meera''), (''age'', JNum 35), (''bloodGroup'', JStr ''O+''),
                (''phone'', JStr ''9810000003''), (''email'', JStr ''meera@example.org''),
                (''address'', JStr ''Rohini, Delhi''),
                (''latitude'', JNum 28.7041), (''longitude'', JNum 77.1025)]"

definition meera_row :: donor where
  "meera_row = \<lparr>donorId = 1, name = ''Meera'', bloodGroup = ''O+'', phone = ''9810000003'',
                 latitude = 28.7041, longitude = 77.1025, age = 35,
                 email = ''meera@example.org'', address = ''Rohini, Delhi''\<rparr>"

definition ravi_row :: donor where
  "ravi_row = \<lparr>donorId = 2, name = ''Ravi'', bloodGroup = ''O+'', phone = ''9810000002'',
                latitude = 28.7041, longitude = 77.1025, age = 41,
                email = ''ravi@example.org'', address = ''Rohini, Delhi''\<rparr>"

definition tie_db :: db where
  "tie_db = \<lparr>donors = [meera_row, ravi_row], next_id = 3, online = True\<rparr>"

text \<open>
  The distance the query computes between the two places; the expression is not \<^verbatim>\<open>NULL\<close>
  there.
\<close>

definition example_km :: real where
  "example_km = (case distance_expr 28.6139 77.2090 28.7041 77.1025 of Some x \<Rightarrow> x | None \<Rightarrow> 0)"

definition delhi_query :: query where
  "delhi_query = [''latitude'' \<mapsto> ''28.6139'', ''longitude'' \<mapsto> ''77.2090'',
                  ''bloodGroup'' \<mapsto> ''O+'']"

text \<open>A second registration under the first one's phone number.\<close>

definition asha_second :: jsobject where
  "asha_second = obj [(''name'', JStr ''Asha Rao''), (''age'', JNum 31), (''bloodGroup'', JStr ''A+''),
                      (''phone'', JStr ''9810000001''), (''email'', JStr ''rao@example.org''),
                      (''address'', JStr ''Saket, Delhi''),
                      (''latitude'', JNum 28.5245), (''longitude'', JNum 77.2066)]"

text \<open>A registration with a negative age and coordinates outside the geographic bounds.\<close>

definition malformed :: jsobject where
  "malformed = asha(''age'' := JNum (- 5), ''latitude'' := JNum 95, ''longitude'' := JNum 200)"

definition malformed_row :: donor where
  "malformed_row = asha_row\<lparr>latitude := 95, longitude := 200, age := - 5\<rparr>"

text \<open>A search from latitude 100, and a search for a blood group nobody has.\<close>

definition far_north_query :: query where
  "far_north_query = [''latitude'' \<mapsto> ''100'', ''longitude'' \<mapsto> ''77.2090'',
                  ''bloodGroup'' \<mapsto> ''O+'']"

definition o_negative_query :: query where
  "o_negative_query = [''latitude'' \<mapsto> ''28.6139'', ''longitude'' \<mapsto> ''77.2090'',
                       ''bloodGroup'' \<mapsto> ''O-'']"

text \<open>A donor stored at latitude 8, and a search from the donor's own position.\<close>

definition cape_row :: donor where
  "cape_row = \<lparr>donorId = 1, name = ''Kumar'', bloodGroup = ''O+'', phone = ''9810000004'',
                latitude = 8, longitude = 77.2090, age = 28,
                email = ''kumar@example.org'', address = ''Cape Comorin''\<rparr>"

definition cape_db :: db where
  "cape_db = \<lparr>donors = [cape_row], next_id = 2, online = True\<rparr>"

definition cape_query :: query where
  "cape_query = [''latitude'' \<mapsto> ''8'', ''longitude'' \<mapsto> ''77.2090'', ''bloodGroup'' \<mapsto> ''O+'']"

section \<open>Rounding to the nearest double\<close>

lemma rne_error: "\<bar>of_int (rne y) - y\<bar> \<le> 1 / 2"
  unfolding rne_def Let_def by (auto simp: abs_le_iff)

lemma rne_minus: "rne (- y) = - rne y"
proof (cases "y = of_int \<lfloor>y\<rfloor>")
  case True
  then have "- y = of_int (- \<lfloor>y\<rfloor>)" by simp
  then have "\<lfloor>- y\<rfloor> = - \<lfloor>y\<rfloor>" by (metis floor_of_int)
  with True show ?thesis
    by (simp add: rne_def Let_def)
next
  case False
  then have below: "of_int \<lfloor>y\<rfloor> < y"
    using of_int_floor_le [of y] by linarith
  have "of_int (- \<lfloor>y\<rfloor> - 1) \<le> - y"
    using real_of_int_floor_add_one_ge [of y] by linarith
  moreover have "- y < of_int (- \<lfloor>y\<rfloor> - 1) + 1"
    using below by simp
  ultimately have fl: "\<lfloor>- y\<rfloor> = - \<lfloor>y\<rfloor> - 1"
    by (rule floor_unique)
  show ?thesis
    unfolding rne_def Let_def fl using False
    by (auto simp: algebra_simps)
qed

lemma rne_unique: "\<bar>y - of_int k\<bar> < 1 / 2 \<Longrightarrow> rne y = k"
  using rne_error [of y] by (simp add: abs_if split: if_splits)

lemma dbl_exponent_minus: "dbl_exponent (- x) = dbl_exponent x"
  by (simp add: dbl_exponent_def)

lemma dbl_minus: "dbl (- x) = - dbl x"
  using rne_minus [of "x / 2 powi (dbl_exponent x - 52)"]
  by (simp add: dbl_def dbl_exponent_minus)

lemma floor_log2:
  assumes "2 powi e \<le> \<bar>x\<bar>" and "\<bar>x\<bar> < 2 powi (e + 1)"
  shows "\<lfloor>log 2 \<bar>x\<bar>\<rfloor> = e"
proof -
  have pos: "0 < \<bar>x\<bar>"
    using assms(1) zero_less_power_int [of "2::real" e] by linarith
  have "(2::real) powr of_int e = 2 powi e" "(2::real) powr (of_int e + 1) = 2 powi (e + 1)"
    using powr_real_of_int' [of "2::real" e] powr_real_of_int' [of "2::real" "e + 1"] by simp_all
  then show ?thesis
    using assms floor_log_eq_powr_iff [OF pos, of 2 e] by simp
qed

lemma log2_powi: "log 2 (2 powi k) = of_int k"
  using powr_real_of_int' [of "2::real" k] log_powr_cancel [of 2 "of_int k"] by simp

lemma dbl_eval:
  assumes "2 powi e \<le> \<bar>x\<bar>" and "\<bar>x\<bar> < 2 powi (e + 1)" and "- 1022 \<le> e"
  shows "dbl x = of_int (rne (x / 2 powi (e - 52))) * 2 powi (e - 52)"
proof -
  have "0 < \<bar>x\<bar>"
    using assms(1) zero_less_power_int [of "2::real" e] by linarith
  then have "x \<noteq> 0"
    by simp
  moreover have "dbl_exponent x = e"
    using floor_log2 [OF assms(1,2)] assms(3) by (simp add: dbl_exponent_def)
  ultimately show ?thesis
    by (simp add: dbl_def)
qed

lemma dbl_near:
  assumes "2 powi e \<le> \<bar>x\<bar>" and "\<bar>x\<bar> < 2 powi (e + 1)" and "- 1022 \<le> e"
    and "\<bar>x / 2 powi (e - 52) - of_int k\<bar> < 1 / 2"
  shows "dbl x = of_int k * 2 powi (e - 52)"
  using dbl_eval [OF assms(1-3)] rne_unique [OF assms(4)] by simp

lemma dbl_error:
  assumes "\<bar>x\<bar> \<le> 2 powi k" and "- 1022 \<le> k"
  shows "\<bar>dbl x - x\<bar> \<le> 2 powi (k - 53)"
proof (cases "x = 0")
  case True
  then show ?thesis by (simp add: dbl_def)
next
  case False
  define e where "e = dbl_exponent x"
  define u :: real where "u = 2 powi (e - 52)"
  have u: "0 < u" by (simp add: u_def)
  have "\<lfloor>log 2 \<bar>x\<bar>\<rfloor> \<le> k"
  proof -
    have "log 2 \<bar>x\<bar> \<le> log 2 (2 powi k)"
      using False assms(1) by (intro log_mono) simp_all
    also have "\<dots> = of_int k"
      by (rule log2_powi)
    finally show ?thesis by (simp add: floor_le_iff)
  qed
  then have ek: "e \<le> k"
    using assms(2) by (simp add: e_def dbl_exponent_def)
  have "dbl x - x = (of_int (rne (x / u)) - x / u) * u"
    using False u by (simp add: dbl_def e_def u_def field_simps)
  then have "\<bar>dbl x - x\<bar> \<le> 1 / 2 * u"
    using rne_error [of "x / u"] u by (simp add: abs_mult)
  also have "1 / 2 * u = 2 powi (e - 53)"
    unfolding u_def using power_int_add [of "2::real" "e - 53" 1] by simp
  also have "\<dots> \<le> 2 powi (k - 53)"
    using ek by (intro power_int_increasing) simp_all
  finally show ?thesis .
qed

lemma abs_cos_diff_le: "\<bar>cos x - cos y\<bar> \<le> \<bar>x - y\<bar>" for x y :: real
proof -
  have "\<bar>cos x - cos y\<bar> = 2 * \<bar>sin ((x + y) / 2)\<bar> * \<bar>sin ((y - x) / 2)\<bar>"
    by (simp add: cos_diff_cos abs_mult)
  also have "\<dots> \<le> 2 * 1 * \<bar>(y - x) / 2\<bar>"
    by (intro mult_mono abs_sin_x_le_abs_x) simp_all
  finally show ?thesis by simp
qed

lemma abs_sin_diff_le: "\<bar>sin x - sin y\<bar> \<le> \<bar>x - y\<bar>" for x y :: real
proof -
  have "\<bar>sin x - sin y\<bar> = 2 * \<bar>sin ((x - y) / 2)\<bar> * \<bar>cos ((x + y) / 2)\<bar>"
    by (simp add: sin_diff_sin abs_mult)
  also have "\<dots> \<le> 2 * \<bar>(x - y) / 2\<bar> * 1"
    by (intro mult_mono abs_sin_x_le_abs_x) simp_all
  finally show ?thesis by simp
qed

lemma eps_pos: "0 < eps"
  by (simp add: eps_def)

lemma eps_small: "eps \<le> 1 / 1000000000000000"
  by (simp add: eps_def)

lemma dbl_error_32nd: "\<bar>x\<bar> \<le> 1 / 32 \<Longrightarrow> \<bar>dbl x - x\<bar> \<le> eps / 32"
  using dbl_error [of x "- 5"] by (simp add: power_int_minus field_simps eps_def)

lemma dbl_error_1: "\<bar>x\<bar> \<le> 1 \<Longrightarrow> \<bar>dbl x - x\<bar> \<le> eps"
  using dbl_error [of x 0] by (simp add: power_int_minus field_simps eps_def)

lemma dbl_error_2: "\<bar>x\<bar> \<le> 2 \<Longrightarrow> \<bar>dbl x - x\<bar> \<le> 2 * eps"
  using dbl_error [of x 1] by (simp add: power_int_minus field_simps eps_def)

lemma dbl_error_4: "\<bar>x\<bar> \<le> 4 \<Longrightarrow> \<bar>dbl x - x\<bar> \<le> 4 * eps"
  using dbl_error [of x 2] by (simp add: power_int_minus field_simps eps_def)

lemma dbl_error_8: "\<bar>x\<bar> \<le> 8 \<Longrightarrow> \<bar>dbl x - x\<bar> \<le> 8 * eps"
  using dbl_error [of x 3] by (simp add: power_int_minus field_simps eps_def)

lemma dbl_error_256: "\<bar>x\<bar> \<le> 256 \<Longrightarrow> \<bar>dbl x - x\<bar> \<le> 256 * eps"
  using dbl_error [of x 8] by (simp add: power_int_minus field_simps eps_def)

lemma dbl_error_32768: "\<bar>x\<bar> \<le> 32768 \<Longrightarrow> \<bar>dbl x - x\<bar> \<le> 32768 * eps"
  using dbl_error [of x 15] by (simp add: power_int_minus field_simps eps_def)

section \<open>Bounds on the cosine\<close>

lemma cos_taylor_bound:
  "\<bar>cos x - (\<Sum>m<n. cos_coeff m * x ^ m)\<bar> \<le> \<bar>x\<bar> ^ n / fact n" for x :: real
proof -
  obtain t where t: "cos x = (\<Sum>m<n. cos_coeff m * x ^ m) + (cos (t + 1/2 * real n * pi) / fact n) * x ^ n"
    using Maclaurin_cos_expansion [of x n] by blast
  have "\<bar>cos x - (\<Sum>m<n. cos_coeff m * x ^ m)\<bar> = \<bar>cos (t + 1/2 * real n * pi)\<bar> * (\<bar>x\<bar> ^ n / fact n)"
    by (simp add: t abs_mult power_abs)
  also have "\<dots> \<le> 1 * (\<bar>x\<bar> ^ n / fact n)"
    by (rule mult_right_mono) simp_all
  finally show ?thesis by simp
qed

lemma cos_sum2: "(\<Sum>m<2. cos_coeff m * x ^ m) = 1" for x :: real
proof -
  have n: "(2::nat) = Suc (Suc (0))" by simp
  show ?thesis unfolding n sum.lessThan_Suc by (simp add: cos_coeff_def fact_numeral) (simp add: eval_nat_numeral)?
qed

lemma cos_sum4: "(\<Sum>m<4. cos_coeff m * x ^ m) = 1 - x^2 / 2" for x :: real
proof -
  have n: "(4::nat) = Suc (Suc (Suc (Suc (0))))" by simp
  show ?thesis unfolding n sum.lessThan_Suc by (simp add: cos_coeff_def fact_numeral) (simp add: eval_nat_numeral)?
qed

lemma cos_sum6: "(\<Sum>m<6. cos_coeff m * x ^ m) = 1 - x^2 / 2 + x^4 / 24" for x :: real
proof -
  have n: "(6::nat) = Suc (Suc (Suc (Suc (Suc (Suc (0))))))" by simp
  show ?thesis unfolding n sum.lessThan_Suc by (simp add: cos_coeff_def fact_numeral) (simp add: eval_nat_numeral)?
qed

lemma cos_sum8: "(\<Sum>m<8. cos_coeff m * x ^ m) = 1 - x^2 / 2 + x^4 / 24 - x^6 / 720" for x :: real
proof -
  have n: "(8::nat) = Suc (Suc (Suc (Suc (Suc (Suc (Suc (Suc (0))))))))" by simp
  show ?thesis unfolding n sum.lessThan_Suc by (simp add: cos_coeff_def fact_numeral) (simp add: eval_nat_numeral)?
qed

lemma cos_sum10: "(\<Sum>m<10. cos_coeff m * x ^ m) = 1 - x^2 / 2 + x^4 / 24 - x^6 / 720 + x^8 / 40320" for x :: real
proof -
  have n: "(10::nat) = Suc (Suc (Suc (Suc (Suc (Suc (Suc (Suc (Suc (Suc (0))))))))))" by simp
  show ?thesis unfolding n sum.lessThan_Suc by (simp add: cos_coeff_def fact_numeral) (simp add: eval_nat_numeral)?
qed

lemma cos_ge2: "1 - x^2 / 2 \<le> cos x" for x :: real
  using cos_taylor_bound [of x 2] unfolding cos_sum2 abs_le_iff by (simp add: fact_numeral)

lemma cos_le4: "cos x \<le> 1 - x^2 / 2 + x^4 / 24" for x :: real
  using cos_taylor_bound [of x 4] unfolding cos_sum4 abs_le_iff by (simp add: fact_numeral)

lemma cos_ge6: "1 - x^2 / 2 + x^4 / 24 - x^6 / 720 \<le> cos x" for x :: real
  using cos_taylor_bound [of x 6] unfolding cos_sum6 abs_le_iff by (simp add: fact_numeral)

lemma cos_le8: "cos x \<le> 1 - x^2 / 2 + x^4 / 24 - x^6 / 720 + x^8 / 40320" for x :: real
  using cos_taylor_bound [of x 8] unfolding cos_sum8 abs_le_iff by (simp add: fact_numeral)

lemma cos_ge10: "1 - x^2 / 2 + x^4 / 24 - x^6 / 720 + x^8 / 40320 - x^10 / 3628800 \<le> cos x" for x :: real
  using cos_taylor_bound [of x 10] unfolding cos_sum10 abs_le_iff by (simp add: fact_numeral)

lemma pi_gt_314: "314 / 100 < pi"
proof -
  have "0 < cos (157 / 100 :: real)"
    using cos_ge10 [of "157 / 100"] by (simp add: power_divide)
  then have "\<not> pi / 2 \<le> 157 / 100"
    using cos_monotone_0_pi_le [of "pi / 2" "157 / 100"] pi_ge_two by auto
  then show ?thesis by simp
qed

lemma pi_lt_315: "pi < 315 / 100"
proof -
  have "cos (1575 / 1000 :: real) < 0"
    using cos_le8 [of "1575 / 1000"] by (simp add: power_divide)
  then have "\<not> 1575 / 1000 \<le> pi / 2"
    using cos_ge_zero [of "1575 / 1000"] by auto
  then show ?thesis by simp
qed

section \<open>Roundoff of the conversion to radians\<close>

lemma abs_scale: "0 \<le> c \<Longrightarrow> \<bar>a * c - b * c\<bar> = \<bar>a - b\<bar> * c" for a b c :: real
  unfolding left_diff_distrib [symmetric] abs_mult by simp

lemma abs_chain3:
  "\<bar>a - b\<bar> \<le> e1 \<Longrightarrow> \<bar>b - c\<bar> \<le> e2 \<Longrightarrow> \<bar>c - d\<bar> \<le> e3 \<Longrightarrow> \<bar>a - d\<bar> \<le> e1 + e2 + e3"
  for a b c d :: real
  by linarith

lemma abs_chain2:
  "\<bar>a - b\<bar> \<le> e1 \<Longrightarrow> \<bar>b - c\<bar> \<le> e2 \<Longrightarrow> \<bar>a - c\<bar> \<le> e1 + e2"
  for a b c :: real
  by linarith

lemma M_PI_error: "\<bar>M_PI - pi\<bar> \<le> 4 * eps"
  unfolding M_PI_def using pi_lt_315 by (intro dbl_error_4) simp

lemma deg_to_rad_error: "\<bar>deg_to_rad - pi / 180\<bar> \<le> eps / 16"
proof -
  have "\<bar>M_PI / 180\<bar> \<le> 1 / 32"
    using M_PI_error pi_lt_315 pi_gt_314 eps_small by linarith
  then have "\<bar>dbl (M_PI / 180) - M_PI / 180\<bar> \<le> eps / 32"
    by (rule dbl_error_32nd)
  moreover have "\<bar>M_PI / 180 - pi / 180\<bar> \<le> eps / 32"
    using M_PI_error by linarith
  ultimately show ?thesis
    unfolding deg_to_rad_def by linarith
qed

lemma deg_to_rad_bounds: "0 \<le> deg_to_rad" "deg_to_rad \<le> 176 / 10000"
  using deg_to_rad_error pi_lt_315 pi_gt_314 eps_small by linarith+

text \<open>A coordinate of at most 180 degrees, read as a double and turned to radians.\<close>

lemma radians_error:
  assumes "\<bar>v\<bar> \<le> 180"
  shows "\<bar>radians (dbl v) - v * pi / 180\<bar> \<le> 32 * eps"
proof -
  let ?x = "dbl v"
  have x: "\<bar>?x - v\<bar> \<le> 256 * eps"
    using assms by (intro dbl_error_256) simp
  then have xb: "\<bar>?x\<bar> \<le> 181"
    using assms eps_small by linarith
  have prod: "\<bar>?x * deg_to_rad\<bar> \<le> 181 * (176 / 10000)"
    unfolding abs_mult using xb deg_to_rad_bounds by (intro mult_mono) simp_all
  then have round: "\<bar>radians ?x - ?x * deg_to_rad\<bar> \<le> 4 * eps"
    unfolding radians_def by (intro dbl_error_4) simp
  have "\<bar>?x * deg_to_rad - ?x * (pi / 180)\<bar> = \<bar>?x\<bar> * \<bar>deg_to_rad - pi / 180\<bar>"
    by (simp add: abs_mult [symmetric] algebra_simps)
  also have "\<dots> \<le> 181 * (eps / 16)"
    using xb deg_to_rad_error by (intro mult_mono) simp_all
  finally have factor: "\<bar>?x * deg_to_rad - ?x * (pi / 180)\<bar> \<le> 181 * (eps / 16)" .
  have "\<bar>?x * (pi / 180) - v * (pi / 180)\<bar> = \<bar>?x - v\<bar> * (pi / 180)"
    by (rule abs_scale) simp
  also have "\<dots> \<le> 256 * eps * (1 / 32)"
    using x pi_lt_315 eps_pos by (intro mult_mono) simp_all
  finally have input: "\<bar>?x * (pi / 180) - v * (pi / 180)\<bar> \<le> 8 * eps"
    by simp
  have "\<bar>radians ?x - v * (pi / 180)\<bar> \<le> 4 * eps + 181 * (eps / 16) + 8 * eps"
    using round factor input by (rule abs_chain3)
  then show ?thesis
    using eps_pos by simp
qed

lemma radians_bound:
  assumes "\<bar>v\<bar> \<le> 180"
  shows "\<bar>radians (dbl v)\<bar> \<le> 316 / 100"
proof -
  have "\<bar>v * pi / 180\<bar> = \<bar>v\<bar> * (pi / 180)"
    by (simp add: abs_mult)
  also have "\<dots> \<le> 180 * (315 / 100 / 180)"
    using assms pi_lt_315 by (intro mult_mono) simp_all
  finally have "\<bar>v * pi / 180\<bar> \<le> 315 / 100" by simp
  then show ?thesis
    using radians_error [OF assms] eps_small by linarith
qed

section \<open>Roundoff of the cosine the query computes\<close>

lemma sql_cos_error:
  assumes "\<bar>r - a\<bar> \<le> e"
  shows "\<bar>sql_cos r - cos a\<bar> \<le> eps + e"
proof -
  have "\<bar>dbl (cos r) - cos r\<bar> \<le> eps"
    by (rule dbl_error_1) simp
  moreover have "\<bar>cos r - cos a\<bar> \<le> e"
    using abs_cos_diff_le [of r a] assms by linarith
  ultimately show ?thesis
    unfolding sql_cos_def by (rule abs_chain2)
qed

lemma sql_sin_error:
  assumes "\<bar>r - a\<bar> \<le> e"
  shows "\<bar>sql_sin r - sin a\<bar> \<le> eps + e"
proof -
  have "\<bar>dbl (sin r) - sin r\<bar> \<le> eps"
    by (rule dbl_error_1) simp
  moreover have "\<bar>sin r - sin a\<bar> \<le> e"
    using abs_sin_diff_le [of r a] assms by linarith
  ultimately show ?thesis
    unfolding sql_sin_def by (rule abs_chain2)
qed

lemma mul_error:
  assumes a: "\<bar>a' - a\<bar> \<le> ea" and b: "\<bar>b' - b\<bar> \<le> eb"
    and "\<bar>a\<bar> \<le> 1" and "\<bar>b\<bar> \<le> 1" and "ea \<le> 1 / 4" and "eb \<le> 1 / 4"
  shows "\<bar>dbl (a' * b') - a * b\<bar> \<le> 2 * eps + (2 * eb + ea)"
proof -
  have a': "\<bar>a'\<bar> \<le> 5 / 4" and b': "\<bar>b'\<bar> \<le> 5 / 4"
    using assms by linarith+
  have "\<bar>a' * b'\<bar> \<le> 5 / 4 * (5 / 4)"
    unfolding abs_mult using a' b' by (intro mult_mono) simp_all
  then have round: "\<bar>dbl (a' * b') - a' * b'\<bar> \<le> 2 * eps"
    by (intro dbl_error_2) simp
  have eb0: "0 \<le> eb"
    using b by linarith
  have "\<bar>a' * (b' - b)\<bar> \<le> 5 / 4 * eb"
    unfolding abs_mult using a' b by (intro mult_mono) simp_all
  moreover have "\<bar>(a' - a) * b\<bar> \<le> ea * 1"
    unfolding abs_mult using a assms(4) by (intro mult_mono) simp_all
  moreover have "a' * b' - a * b = a' * (b' - b) + (a' - a) * b"
    by (simp add: algebra_simps)
  ultimately have "\<bar>a' * b' - a * b\<bar> \<le> 2 * eb + ea"
    using eb0 by linarith
  with round show ?thesis
    by (rule abs_chain2)
qed

text \<open>
  The cosine the query computes for two points within 180 degrees of zero in every
  coordinate is within 354 units of roundoff of the cosine over the real numbers.
\<close>

lemma acos_arg_error:
  assumes "\<bar>lat0\<bar> \<le> 180" and "\<bar>lon0\<bar> \<le> 180" and "\<bar>lat\<bar> \<le> 180" and "\<bar>lon\<bar> \<le> 180"
  shows "\<bar>acos_arg (dbl lat0) (dbl lon0) (dbl lat) (dbl lon) - spec_cosine lat0 lon0 lat lon\<bar>
           \<le> 354 * eps"
proof -
  note small = eps_pos eps_small
  let ?ra = "radians (dbl lat0)" and ?rb = "radians (dbl lat)"
  let ?la = "radians (dbl lon0)" and ?lb = "radians (dbl lon)"
  have c0: "\<bar>sql_cos ?ra - cos (lat0 * pi / 180)\<bar> \<le> eps + 32 * eps"
    and c: "\<bar>sql_cos ?rb - cos (lat * pi / 180)\<bar> \<le> eps + 32 * eps"
    and s0: "\<bar>sql_sin ?ra - sin (lat0 * pi / 180)\<bar> \<le> eps + 32 * eps"
    and s: "\<bar>sql_sin ?rb - sin (lat * pi / 180)\<bar> \<le> eps + 32 * eps"
    using radians_error [OF assms(1)] radians_error [OF assms(3)]
    by (intro sql_cos_error sql_sin_error; simp)+
  have "\<bar>?lb - ?la\<bar> \<le> 8"
    using radians_bound [OF assms(2)] radians_bound [OF assms(4)] by linarith
  then have "\<bar>dbl (?lb - ?la) - (?lb - ?la)\<bar> \<le> 8 * eps"
    by (rule dbl_error_8)
  moreover have "\<bar>(?lb - ?la) - (lon - lon0) * pi / 180\<bar> \<le> 64 * eps"
    using radians_error [OF assms(2)] radians_error [OF assms(4)]
    by (simp add: left_diff_distrib diff_divide_distrib)
  ultimately have "\<bar>dbl (?lb - ?la) - (lon - lon0) * pi / 180\<bar> \<le> 8 * eps + 64 * eps"
    by (rule abs_chain2)
  then have d: "\<bar>sql_cos (dbl (?lb - ?la)) - cos ((lon - lon0) * pi / 180)\<bar>
                  \<le> eps + (8 * eps + 64 * eps)"
    by (rule sql_cos_error)
  have cc: "\<bar>dbl (sql_cos ?ra * sql_cos ?rb) - cos (lat0 * pi / 180) * cos (lat * pi / 180)\<bar>
              \<le> 2 * eps + (2 * (eps + 32 * eps) + (eps + 32 * eps))"
    using small by (intro mul_error [OF c0 c]) simp_all
  have "\<bar>cos (lat0 * pi / 180) * cos (lat * pi / 180)\<bar> \<le> 1 * 1"
    unfolding abs_mult by (intro mult_mono) simp_all
  then have ccd: "\<bar>dbl (dbl (sql_cos ?ra * sql_cos ?rb) * sql_cos (dbl (?lb - ?la)))
                    - cos (lat0 * pi / 180) * cos (lat * pi / 180) * cos ((lon - lon0) * pi / 180)\<bar>
              \<le> 2 * eps + (2 * (eps + (8 * eps + 64 * eps))
                             + (2 * eps + (2 * (eps + 32 * eps) + (eps + 32 * eps))))"
    using small by (intro mul_error [OF cc d]) simp_all
  have ss: "\<bar>dbl (sql_sin ?ra * sql_sin ?rb) - sin (lat0 * pi / 180) * sin (lat * pi / 180)\<bar>
              \<le> 2 * eps + (2 * (eps + 32 * eps) + (eps + 32 * eps))"
    using small by (intro mul_error [OF s0 s]) simp_all
  define P where "P = dbl (dbl (sql_cos ?ra * sql_cos ?rb) * sql_cos (dbl (?lb - ?la)))"
  define S where "S = dbl (sql_sin ?ra * sql_sin ?rb)"
  define p where "p = cos (lat0 * pi / 180) * cos (lat * pi / 180) * cos ((lon - lon0) * pi / 180)"
  define q where "q = sin (lat0 * pi / 180) * sin (lat * pi / 180)"
  have pq: "\<bar>p\<bar> \<le> 1" "\<bar>q\<bar> \<le> 1"
  proof -
    have "\<bar>p\<bar> \<le> 1 * 1 * 1" "\<bar>q\<bar> \<le> 1 * 1"
      unfolding p_def q_def abs_mult by (intro mult_mono; simp)+
    then show "\<bar>p\<bar> \<le> 1" "\<bar>q\<bar> \<le> 1" by simp_all
  qed
  have P: "\<bar>P - p\<bar> \<le> 249 * eps" and S: "\<bar>S - q\<bar> \<le> 101 * eps"
    using ccd ss unfolding P_def S_def p_def q_def by simp_all
  then have "\<bar>P + S\<bar> \<le> 4"
    using pq small by linarith
  then have "\<bar>dbl (P + S) - (P + S)\<bar> \<le> 4 * eps"
    by (rule dbl_error_4)
  then have "\<bar>dbl (P + S) - (p + q)\<bar> \<le> 354 * eps"
    using P S by linarith
  then show ?thesis
    by (simp add: acos_arg_def spec_cosine_def spec_radians_def P_def S_def p_def q_def)
qed

section \<open>The cosine of the specification\<close>

lemma spec_radians_diff: "spec_radians (a - b) = spec_radians a - spec_radians b"
  by (simp add: spec_radians_def algebra_simps diff_divide_distrib)

lemma spec_cosine_alt:
  "spec_cosine lat0 lon0 lat lon =
     cos (spec_radians lat - spec_radians lat0)
       - cos (spec_radians lat0) * cos (spec_radians lat) * (1 - cos (spec_radians lon0 - spec_radians lon))"
proof -
  have "cos (spec_radians (lon - lon0)) = cos (spec_radians lon0 - spec_radians lon)"
    using cos_minus [of "spec_radians lon0 - spec_radians lon"]
    by (simp add: spec_radians_diff)
  then show ?thesis
    by (simp add: spec_cosine_def cos_diff [of "spec_radians lat"] algebra_simps)
qed

lemma example_cosine_bounds:
  "1 - 25848 / 10 ^ 10 < spec_cosine 28.6139 77.2090 28.7041 77.1025"
  "spec_cosine 28.6139 77.2090 28.7041 77.1025 < 1 - 25624 / 10 ^ 10"
proof -
  define a where "a = spec_radians 28.6139"
  define b where "b = spec_radians 28.7041"
  define u where "u = spec_radians 28.7041 - spec_radians 28.6139"
  define v where "v = spec_radians 77.2090 - spec_radians 77.1025"
  note pb = pi_gt_314 pi_lt_315
  have a: "4991 / 10000 \<le> a" "a \<le> 5008 / 10000"
    using pb by (simp_all add: a_def spec_radians_def)
  have b: "5007 / 10000 \<le> b" "b \<le> 5024 / 10000"
    using pb by (simp_all add: b_def spec_radians_def)
  have u: "1573 / 1000000 \<le> u" "u \<le> 1579 / 1000000"
    using pb by (simp_all add: u_def spec_radians_def)
  have v: "1857 / 1000000 \<le> v" "v \<le> 1864 / 1000000"
    using pb by (simp_all add: v_def spec_radians_def)
  have ca_lo: "8771 / 10000 \<le> cos a"
  proof -
    have "8771 / 10000 \<le> cos (5008 / 10000 :: real)"
      using cos_ge6 [of "5008 / 10000"] by (simp add: power_divide)
    also have "\<dots> \<le> cos a"
      using a pb by (intro cos_monotone_0_pi_le) simp_all
    finally show ?thesis .
  qed
  have cb_lo: "8764 / 10000 \<le> cos b"
  proof -
    have "8764 / 10000 \<le> cos (5024 / 10000 :: real)"
      using cos_ge6 [of "5024 / 10000"] by (simp add: power_divide)
    also have "\<dots> \<le> cos b"
      using b pb by (intro cos_monotone_0_pi_le) simp_all
    finally show ?thesis .
  qed
  have ca_hi: "cos a \<le> 87804 / 100000"
  proof -
    have "cos a \<le> cos (4991 / 10000 :: real)"
      using a pb by (intro cos_monotone_0_pi_le) simp_all
    also have "\<dots> \<le> 87804 / 100000"
      using cos_le4 [of "4991 / 10000"] by (simp add: power_divide)
    finally show ?thesis .
  qed
  have cb_hi: "cos b \<le> 87727 / 100000"
  proof -
    have "cos b \<le> cos (5007 / 10000 :: real)"
      using b pb by (intro cos_monotone_0_pi_le) simp_all
    also have "\<dots> \<le> 87727 / 100000"
      using cos_le4 [of "5007 / 10000"] by (simp add: power_divide)
    finally show ?thesis .
  qed
  have cu_lo: "12371 / 10 ^ 10 \<le> 1 - cos u"
  proof -
    have "cos u \<le> cos (1573 / 1000000 :: real)"
      using u pb by (intro cos_monotone_0_pi_le) simp_all
    also have "\<dots> \<le> 1 - 12371 / 10 ^ 10"
      using cos_le4 [of "1573 / 1000000"] by (simp add: power_divide)
    finally show ?thesis by simp
  qed
  have cv_lo: "17242 / 10 ^ 10 \<le> 1 - cos v"
  proof -
    have "cos v \<le> cos (1857 / 1000000 :: real)"
      using v pb by (intro cos_monotone_0_pi_le) simp_all
    also have "\<dots> \<le> 1 - 17242 / 10 ^ 10"
      using cos_le4 [of "1857 / 1000000"] by (simp add: power_divide)
    finally show ?thesis by simp
  qed
  have cu_hi: "1 - cos u \<le> 124663 / 10 ^ 11"
  proof -
    have "1 - 124663 / 10 ^ 11 \<le> cos (1579 / 1000000 :: real)"
      using cos_ge2 [of "1579 / 1000000"] by (simp add: power_divide)
    also have "\<dots> \<le> cos u"
      using u pb by (intro cos_monotone_0_pi_le) simp_all
    finally show ?thesis by simp
  qed
  have cv_hi: "1 - cos v \<le> 173725 / 10 ^ 11"
  proof -
    have "1 - 173725 / 10 ^ 11 \<le> cos (1864 / 1000000 :: real)"
      using cos_ge2 [of "1864 / 1000000"] by (simp add: power_divide)
    also have "\<dots> \<le> cos v"
      using v pb by (intro cos_monotone_0_pi_le) simp_all
    finally show ?thesis by simp
  qed
  have eq: "spec_cosine 28.6139 77.2090 28.7041 77.1025 = cos u - cos a * cos b * (1 - cos v)"
    unfolding spec_cosine_alt a_def b_def u_def v_def by simp
  have cab_lo: "(8771 / 10000) * (8764 / 10000) \<le> cos a * cos b"
    using ca_lo cb_lo by (intro mult_mono) simp_all
  have "(8771 / 10000) * (8764 / 10000) * (17242 / 10 ^ 10) \<le> cos a * cos b * (1 - cos v)"
    using cab_lo cv_lo by (rule mult_mono) (use cab_lo in simp_all)
  then show "spec_cosine 28.6139 77.2090 28.7041 77.1025 < 1 - 25624 / 10 ^ 10"
    unfolding eq using cu_lo by simp
  have "0 \<le> cos a" "0 \<le> cos b"
    using ca_lo cb_lo by simp_all
  then have cab_hi: "cos a * cos b \<le> (87804 / 100000) * (87727 / 100000)"
    using ca_hi cb_hi by (intro mult_mono) simp_all
  have "cos a * cos b * (1 - cos v) \<le> (87804 / 100000) * (87727 / 100000) * (173725 / 10 ^ 11)"
    using cab_hi cv_hi by (rule mult_mono) (use cv_lo in simp_all)
  then show "1 - 25848 / 10 ^ 10 < spec_cosine 28.6139 77.2090 28.7041 77.1025"
    unfolding eq using cu_hi by simp
qed



lemma spec_distance_self: "spec_distance lat lon lat lon = 0"
proof -
  have "spec_cosine lat lon lat lon = (cos (spec_radians lat))\<^sup>2 + (sin (spec_radians lat))\<^sup>2"
    by (simp add: spec_cosine_def spec_radians_def power2_eq_square)
  then show ?thesis
    by (simp add: spec_distance_def)
qed

section \<open>The example of the specification\<close>

lemma example_acos_arg_bounds:
  "1 - 25849 / 10 ^ 10 < acos_arg (dbl 28.6139) (dbl 77.2090) (dbl 28.7041) (dbl 77.1025)"
  "acos_arg (dbl 28.6139) (dbl 77.2090) (dbl 28.7041) (dbl 77.1025) < 1 - 25623 / 10 ^ 10"
proof -
  define c where "c = acos_arg (dbl 28.6139) (dbl 77.2090) (dbl 28.7041) (dbl 77.1025)"
  define a where "a = spec_cosine 28.6139 77.2090 28.7041 77.1025"
  have "\<bar>c - a\<bar> \<le> 354 * eps"
    unfolding c_def a_def by (rule acos_arg_error) simp_all
  moreover have "1 - 25848 / 10000000000 < a" "a < 1 - 25624 / 10000000000"
    using example_cosine_bounds by (simp_all add: a_def)
  ultimately have "1 - 25849 / 10000000000 < c" "c < 1 - 25623 / 10000000000"
    using eps_small by linarith+
  then show "1 - 25849 / 10 ^ 10 < acos_arg (dbl 28.6139) (dbl 77.2090) (dbl 28.7041) (dbl 77.1025)"
    and "acos_arg (dbl 28.6139) (dbl 77.2090) (dbl 28.7041) (dbl 77.1025) < 1 - 25623 / 10 ^ 10"
    by (simp_all add: c_def)
qed

lemma example_distance_bounds:
  "distance_expr 28.6139 77.2090 28.7041 77.1025 \<in> Some ` {14.4 <..< 14.5}"
proof -
  define c where "c = acos_arg (dbl 28.6139) (dbl 77.2090) (dbl 28.7041) (dbl 77.1025)"
  define t where "t = dbl (arccos c)"
  define x where "x = dbl (6371 * t)"
  have c: "1 - 25849 / 10 ^ 10 < c" "c < 1 - 25623 / 10 ^ 10"
    unfolding c_def by (rule example_acos_arg_bounds)+
  then have dom: "- 1 \<le> c" "c \<le> 1"
    by simp_all
  have lo: "1441 / 637100 < arccos c"
  proof -
    have "c < 1 - 25623 / 10 ^ 10"
      by (rule c)
    also have "\<dots> \<le> cos (1441 / 637100 :: real)"
      using cos_ge2 [of "1441 / 637100"] by (simp add: power_divide)
    finally have "arccos (cos (1441 / 637100 :: real)) < arccos c"
      using dom by (intro arccos_less_arccos) simp_all
    moreover have "arccos (cos (1441 / 637100 :: real)) = 1441 / 637100"
      using pi_gt_314 by (intro arccos_cos) simp_all
    ultimately show ?thesis by simp
  qed
  have hi: "arccos c < 1449 / 637100"
  proof -
    have "cos (1449 / 637100 :: real) \<le> 1 - 25849 / 10 ^ 10"
      using cos_le4 [of "1449 / 637100"] by (simp add: power_divide)
    also have "\<dots> < c"
      by (rule c)
    finally have "arccos c < arccos (cos (1449 / 637100 :: real))"
      using dom by (intro arccos_less_arccos) simp_all
    moreover have "arccos (cos (1449 / 637100 :: real)) = 1449 / 637100"
      using pi_gt_314 by (intro arccos_cos) simp_all
    ultimately show ?thesis by simp
  qed
  have "\<bar>arccos c\<bar> \<le> 1"
    using lo hi by linarith
  then have "\<bar>t - arccos c\<bar> \<le> eps"
    unfolding t_def by (rule dbl_error_1)
  then have t: "14405 / 6371000 < t" "t < 14495 / 6371000"
    using lo hi eps_small by linarith+
  then have "\<bar>6371 * t\<bar> \<le> 32768"
    by linarith
  then have "\<bar>x - 6371 * t\<bar> \<le> 32768 * eps"
    unfolding x_def by (rule dbl_error_32768)
  then have "144 / 10 < x" "x < 145 / 10"
    using t eps_small by linarith+
  moreover have "distance_expr 28.6139 77.2090 28.7041 77.1025 = Some x"
    using dom by (simp add: distance_expr_def distance_of_cosine_def sql_acos_def x_def t_def c_def)
  ultimately show ?thesis by simp
qed

section \<open>Enclosures of the cosine, the sine and pi\<close>

lemma cos_sum12:
  "(\<Sum>m<12. cos_coeff m * x ^ m) = 1 - x^2 / 2 + x^4 / 24 - x^6 / 720 + x^8 / 40320 - x^10 / 3628800"
  for x :: real
proof -
  have n: "(12::nat) = Suc (Suc 10)" by simp
  show ?thesis unfolding n sum.lessThan_Suc cos_sum10 by (simp add: cos_coeff_def fact_numeral)
qed

lemma cos_sum14:
  "(\<Sum>m<14. cos_coeff m * x ^ m) = 1 - x^2 / 2 + x^4 / 24 - x^6 / 720 + x^8 / 40320 - x^10 / 3628800 + x^12 / 479001600"
  for x :: real
proof -
  have n: "(14::nat) = Suc (Suc 12)" by simp
  show ?thesis unfolding n sum.lessThan_Suc cos_sum12 by (simp add: cos_coeff_def fact_numeral)
qed

lemma cos_enclosure14:
  "\<bar>cos x - (1 - x^2 / 2 + x^4 / 24 - x^6 / 720 + x^8 / 40320 - x^10 / 3628800 + x^12 / 479001600)\<bar> \<le> \<bar>x\<bar> ^ 14 / 87178291200"
  for x :: real
  using cos_taylor_bound [of x 14] unfolding cos_sum14 by (simp add: fact_numeral)

lemma cos_less14:
  "1 - x^2 / 2 + x^4 / 24 - x^6 / 720 + x^8 / 40320 - x^10 / 3628800 + x^12 / 479001600 + \<bar>x\<bar> ^ 14 / 87178291200 < v \<Longrightarrow> cos x < v"
  for x :: real
  using cos_enclosure14 [of x] by linarith

lemma cos_greater14:
  "v < 1 - x^2 / 2 + x^4 / 24 - x^6 / 720 + x^8 / 40320 - x^10 / 3628800 + x^12 / 479001600 - \<bar>x\<bar> ^ 14 / 87178291200 \<Longrightarrow> v < cos x"
  for x :: real
  using cos_enclosure14 [of x] by linarith

lemma sin_sum3: "(\<Sum>m<3. sin_coeff m * x ^ m) = x" for x :: real
proof -
  have n: "(3::nat) = Suc (Suc (Suc 0))" by simp
  show ?thesis unfolding n sum.lessThan_Suc by (simp add: sin_coeff_def)
qed

lemma sin_sum5:
  "(\<Sum>m<5. sin_coeff m * x ^ m) = x - x^3 / 6"
  for x :: real
proof -
  have n: "(5::nat) = Suc (Suc 3)" by simp
  show ?thesis unfolding n sum.lessThan_Suc sin_sum3 by (simp add: sin_coeff_def fact_numeral)
qed

lemma sin_sum7:
  "(\<Sum>m<7. sin_coeff m * x ^ m) = x - x^3 / 6 + x^5 / 120"
  for x :: real
proof -
  have n: "(7::nat) = Suc (Suc 5)" by simp
  show ?thesis unfolding n sum.lessThan_Suc sin_sum5 by (simp add: sin_coeff_def fact_numeral)
qed

lemma sin_sum9:
  "(\<Sum>m<9. sin_coeff m * x ^ m) = x - x^3 / 6 + x^5 / 120 - x^7 / 5040"
  for x :: real
proof -
  have n: "(9::nat) = Suc (Suc 7)" by simp
  show ?thesis unfolding n sum.lessThan_Suc sin_sum7 by (simp add: sin_coeff_def fact_numeral)
qed

lemma sin_sum11:
  "(\<Sum>m<11. sin_coeff m * x ^ m) = x - x^3 / 6 + x^5 / 120 - x^7 / 5040 + x^9 / 362880"
  for x :: real
proof -
  have n: "(11::nat) = Suc (Suc 9)" by simp
  show ?thesis unfolding n sum.lessThan_Suc sin_sum9 by (simp add: sin_coeff_def fact_numeral)
qed

lemma sin_sum13:
  "(\<Sum>m<13. sin_coeff m * x ^ m) = x - x^3 / 6 + x^5 / 120 - x^7 / 5040 + x^9 / 362880 - x^11 / 39916800"
  for x :: real
proof -
  have n: "(13::nat) = Suc (Suc 11)" by simp
  show ?thesis unfolding n sum.lessThan_Suc sin_sum11 by (simp add: sin_coeff_def fact_numeral)
qed

lemma sin_sum15:
  "(\<Sum>m<15. sin_coeff m * x ^ m) = x - x^3 / 6 + x^5 / 120 - x^7 / 5040 + x^9 / 362880 - x^11 / 39916800 + x^13 / 6227020800"
  for x :: real
proof -
  have n: "(15::nat) = Suc (Suc 13)" by simp
  show ?thesis unfolding n sum.lessThan_Suc sin_sum13 by (simp add: sin_coeff_def fact_numeral)
qed

lemma sin_sum17:
  "(\<Sum>m<17. sin_coeff m * x ^ m) = x - x^3 / 6 + x^5 / 120 - x^7 / 5040 + x^9 / 362880 - x^11 / 39916800 + x^13 / 6227020800 - x^15 / 1307674368000"
  for x :: real
proof -
  have n: "(17::nat) = Suc (Suc 15)" by simp
  show ?thesis unfolding n sum.lessThan_Suc sin_sum15 by (simp add: sin_coeff_def fact_numeral)
qed


lemma sin_enclosure13:
  "\<bar>sin x - (x - x^3 / 6 + x^5 / 120 - x^7 / 5040 + x^9 / 362880 - x^11 / 39916800)\<bar> \<le> \<bar>x\<bar> ^ 13 / 6227020800"
  for x :: real
  using Maclaurin_sin_bound [of x 13] unfolding sin_sum13 by (simp add: fact_numeral field_simps)

lemma sin_enclosure17:
  "\<bar>sin x - (x - x^3 / 6 + x^5 / 120 - x^7 / 5040 + x^9 / 362880 - x^11 / 39916800 + x^13 / 6227020800 - x^15 / 1307674368000)\<bar> \<le> \<bar>x\<bar> ^ 17 / 355687428096000"
  for x :: real
  using Maclaurin_sin_bound [of x 17] unfolding sin_sum17 by (simp add: fact_numeral field_simps)

lemma sin_less13:
  "x - x^3 / 6 + x^5 / 120 - x^7 / 5040 + x^9 / 362880 - x^11 / 39916800 + \<bar>x\<bar> ^ 13 / 6227020800 < v \<Longrightarrow> sin x < v"
  for x :: real
  using sin_enclosure13 [of x] by linarith

lemma sin_greater13:
  "v < x - x^3 / 6 + x^5 / 120 - x^7 / 5040 + x^9 / 362880 - x^11 / 39916800 - \<bar>x\<bar> ^ 13 / 6227020800 \<Longrightarrow> v < sin x"
  for x :: real
  using sin_enclosure13 [of x] by linarith

lemma sin_less17:
  "x - x^3 / 6 + x^5 / 120 - x^7 / 5040 + x^9 / 362880 - x^11 / 39916800 + x^13 / 6227020800 - x^15 / 1307674368000 + \<bar>x\<bar> ^ 17 / 355687428096000 < v \<Longrightarrow> sin x < v"
  for x :: real
  using sin_enclosure17 [of x] by linarith

lemma sin_greater17:
  "v < x - x^3 / 6 + x^5 / 120 - x^7 / 5040 + x^9 / 362880 - x^11 / 39916800 + x^13 / 6227020800 - x^15 / 1307674368000 - \<bar>x\<bar> ^ 17 / 355687428096000 \<Longrightarrow> v < sin x"
  for x :: real
  using sin_enclosure17 [of x] by linarith

lemma pi_enclosure: "14148475504056879 / 2 ^ 52 < pi" "pi < 14148475504056881 / 2 ^ 52"
proof -
  let ?l = "14148475504056879 / (6 * 2 ^ 52) :: real" and ?u = "14148475504056881 / (6 * 2 ^ 52) :: real"
  have "sin ?l < 1 / 2"
    by (rule sin_less17) (simp add: power_divide)
  then have "\<not> pi / 6 \<le> ?l"
    using sin_monotone_2pi_le [of "pi / 6" ?l] pi_gt_314 by (auto simp: sin_30)
  then show "14148475504056879 / 2 ^ 52 < pi" by simp
  have "1 / 2 < sin ?u"
    by (rule sin_greater17) (simp add: power_divide)
  then have "\<not> ?u \<le> pi / 6"
    using sin_monotone_2pi_le [of ?u "pi / 6"] by (auto simp: sin_30)
  then show "pi < 14148475504056881 / 2 ^ 52" by simp
qed

section \<open>A point at latitude 8\<close>

lemma dbl_between:
  assumes "2 powi e \<le> \<bar>x\<bar>" and "\<bar>x\<bar> < 2 powi (e + 1)" and "- 1022 \<le> e"
    and "(of_int k - 1 / 2) * 2 powi (e - 52) < x" and "x < (of_int k + 1 / 2) * 2 powi (e - 52)"
  shows "dbl x = of_int k * 2 powi (e - 52)"
proof (rule dbl_near [OF assms(1-3)])
  define u :: real where "u = 2 powi (e - 52)"
  have u: "0 < u" by (simp add: u_def)
  have "of_int k - 1 / 2 < x / u" "x / u < of_int k + 1 / 2"
    using assms(4,5) u by (simp_all add: u_def [symmetric] field_simps)
  then show "\<bar>x / 2 powi (e - 52) - of_int k\<bar> < 1 / 2"
    unfolding u_def [symmetric] by linarith
qed

lemma M_PI_value: "M_PI = 7074237752028440 / 2 ^ 51"
proof -
  have "dbl pi = of_int 7074237752028440 * 2 powi (1 - 52)"
    using pi_enclosure pi_gt_314 pi_lt_315
    by (intro dbl_between) (simp_all add: power_int_minus)
  then show ?thesis
    by (simp add: M_PI_def power_int_minus)
qed

lemma deg_to_rad_value: "deg_to_rad = 5030569068109113 / 2 ^ 58"
proof -
  have "dbl (7074237752028440 / 2 ^ 51 / 180) = of_int 5030569068109113 * 2 powi (- 6 - 52)"
    by (intro dbl_between) (simp_all add: power_int_minus)
  then show ?thesis
    by (simp add: deg_to_rad_def M_PI_value power_int_minus)
qed

lemma dbl_8: "dbl 8 = 8"
proof -
  have "dbl 8 = of_int 4503599627370496 * 2 powi (3 - 52)"
    by (intro dbl_between) (simp_all add: power_int_minus)
  then show ?thesis
    by (simp add: power_int_minus)
qed

lemma radians_8: "radians 8 = 5030569068109113 / 2 ^ 55"
proof -
  have "dbl (8 * (5030569068109113 / 2 ^ 58)) = of_int 5030569068109113 * 2 powi (- 3 - 52)"
    by (intro dbl_between) (simp_all add: power_int_minus)
  then show ?thesis
    by (simp add: radians_def deg_to_rad_value power_int_minus)
qed

lemma sql_cos_radians_8: "sql_cos (radians 8) = 8919541810762874 / 2 ^ 53"
proof -
  let ?r = "5030569068109113 / 2 ^ 55 :: real"
  have lo: "17839083621525747 / 2 ^ 54 < cos ?r"
    by (rule cos_greater14) (simp add: power_divide)
  have hi: "cos ?r < 17839083621525749 / 2 ^ 54"
    by (rule cos_less14) (simp add: power_divide)
  have "dbl (cos ?r) = of_int 8919541810762874 * 2 powi (- 1 - 52)"
    using lo hi by (intro dbl_between) (simp_all add: power_int_minus)
  then show ?thesis
    by (simp add: sql_cos_def radians_8 power_int_minus)
qed

lemma sql_sin_radians_8: "sql_sin (radians 8) = 5014239404989977 / 2 ^ 55"
proof -
  let ?r = "5030569068109113 / 2 ^ 55 :: real"
  have lo: "10028478809979953 / 2 ^ 56 < sin ?r"
    by (rule sin_greater13) (simp add: power_divide)
  have hi: "sin ?r < 10028478809979955 / 2 ^ 56"
    by (rule sin_less13) (simp add: power_divide)
  have "dbl (sin ?r) = of_int 5014239404989977 * 2 powi (- 3 - 52)"
    using lo hi by (intro dbl_between) (simp_all add: power_int_minus)
  then show ?thesis
    by (simp add: sql_sin_def radians_8 power_int_minus)
qed

lemma dbl_1: "dbl 1 = 1"
proof -
  have "dbl 1 = of_int 4503599627370496 * 2 powi (0 - 52)"
    by (intro dbl_between) (simp_all add: power_int_minus)
  then show ?thesis
    by (simp add: power_int_minus)
qed

lemma dbl_0: "dbl 0 = 0"
  by (simp add: dbl_def)

lemma sql_cos_0: "sql_cos (dbl (x - x)) = 1"
  by (simp add: sql_cos_def dbl_0 dbl_1)

lemma cos_product_8: "dbl (8919541810762874 / 2 ^ 53 * (8919541810762874 / 2 ^ 53)) = 8832737443003841 / 2 ^ 53"
proof -
  have "dbl (8919541810762874 / 2 ^ 53 * (8919541810762874 / 2 ^ 53))
      = of_int 8832737443003841 * 2 powi (- 1 - 52)"
    by (intro dbl_between) (simp_all add: power_int_minus)
  then show ?thesis
    by (simp add: power_int_minus)
qed

lemma cos_product_8_again: "dbl (8832737443003841 / 2 ^ 53 * 1) = 8832737443003841 / 2 ^ 53"
proof -
  have "dbl (8832737443003841 / 2 ^ 53 * 1) = of_int 8832737443003841 * 2 powi (- 1 - 52)"
    by (intro dbl_between) (simp_all add: power_int_minus)
  then show ?thesis
    by (simp add: power_int_minus)
qed

lemma sin_product_8: "dbl (5014239404989977 / 2 ^ 55 * (5014239404989977 / 2 ^ 55)) = 5582777975588868 / 2 ^ 58"
proof -
  have "dbl (5014239404989977 / 2 ^ 55 * (5014239404989977 / 2 ^ 55))
      = of_int 5582777975588868 * 2 powi (- 6 - 52)"
    by (intro dbl_between) (simp_all add: power_int_minus)
  then show ?thesis
    by (simp add: power_int_minus)
qed

lemma sum_8: "dbl (8832737443003841 / 2 ^ 53 + 5582777975588868 / 2 ^ 58) = 1 + 1 / 2 ^ 52"
proof -
  have "dbl (8832737443003841 / 2 ^ 53 + 5582777975588868 / 2 ^ 58)
      = of_int 4503599627370497 * 2 powi (0 - 52)"
    by (intro dbl_between) (simp_all add: power_int_minus)
  then show ?thesis
    by (simp add: power_int_minus)
qed

lemma acos_arg_8: "acos_arg 8 lon 8 lon = 1 + 1 / 2 ^ 52"
  unfolding acos_arg_def sql_cos_0 sql_cos_radians_8 sql_sin_radians_8
    cos_product_8 cos_product_8_again sin_product_8 sum_8 ..

lemma distance_expr_8: "distance_expr 8 lon 8 lon = None"
  by (simp add: distance_expr_def dbl_8 acos_arg_8 distance_of_cosine_def sql_acos_def)

section \<open>Roundoff of the distance\<close>







lemma acos_arg_sym: "acos_arg lat1 lon1 lat2 lon2 = acos_arg lat2 lon2 lat1 lon1"
proof -
  have "dbl (radians lon2 - radians lon1) = - dbl (radians lon1 - radians lon2)"
    using dbl_minus [of "radians lon1 - radians lon2"] by simp
  then have "sql_cos (dbl (radians lon2 - radians lon1)) = sql_cos (dbl (radians lon1 - radians lon2))"
    by (simp add: sql_cos_def)
  then show ?thesis
    by (simp add: acos_arg_def mult.commute)
qed

section \<open>The rows a search selects\<close>

lemma example_km:
  "distance_expr 28.6139 77.2090 28.7041 77.1025 = Some example_km"
  "14.4 < example_km" "example_km < 14.5"
  using example_distance_bounds by (auto simp: example_km_def)


lemma select_having_set:
  "m \<in> set (select_having lat0 lon0 r ds) \<longleftrightarrow>
     (\<exists>d \<in> set ds. \<exists>x. distance_expr lat0 lon0 (latitude d) (longitude d) = Some x \<and> x < r
        \<and> m = select_row d x)"
  by (induction ds) (auto split: option.splits)

lemma search_donors_Inr:
  "search_donors cs d q (Inr out) \<longleftrightarrow>
     \<not> missing_search q \<and> online d
     \<and> mset out = mset (select_having (origin_latitude cs q) (origin_longitude cs q) searchRadiusKm
                         (find_by_blood_group (query_text q ''bloodGroup'') (donors d)))
     \<and> sorted (map distance out)"
  by (simp add: search_donors_def search_query_def order_by_distance_def)

lemma search_donors_member:
  assumes "search_donors cs d q (Inr out)"
  shows "m \<in> set out \<longleftrightarrow>
     (\<exists>r \<in> set (donors d). bloodGroup r = query_text q ''bloodGroup''
        \<and> (\<exists>x. distance_expr (origin_latitude cs q) (origin_longitude cs q)
                  (latitude r) (longitude r) = Some x
              \<and> x < 15 \<and> m = select_row r x))"
proof -
  have "set out = set (select_having (origin_latitude cs q) (origin_longitude cs q) searchRadiusKm
                         (find_by_blood_group (query_text q ''bloodGroup'') (donors d)))"
    using assms mset_eq_setD unfolding search_donors_Inr by blast
  then show ?thesis
    by (auto simp: select_having_set find_by_blood_group_def searchRadiusKm_def)
qed



lemma search_stable_response:
  "\<not> missing_search q \<Longrightarrow> online d \<Longrightarrow> search_donors cs d q (Inr (search_stable cs d q))"
  by (simp add: search_donors_Inr search_stable_def)

text \<open>Every request has a response.\<close>

lemma search_donors_total: "\<exists>resp. search_donors cs d q resp"
proof (cases "missing_search q \<or> \<not> online d")
  case True
  then show ?thesis
    by (auto simp: search_donors_def)
next
  case False
  then have "search_donors cs d q (Inr (search_stable cs d q))"
    by (simp add: search_stable_response)
  then show ?thesis ..
qed

lemma tie_rows:
  "select_having (origin_latitude example_casts delhi_query)
     (origin_longitude example_casts delhi_query) searchRadiusKm
     (find_by_blood_group (query_text delhi_query ''bloodGroup'') (donors tie_db))
   = [select_row meera_row example_km, select_row ravi_row example_km]"
  using example_km(1,3)
  by (simp add: query_text_def delhi_query_def origin_latitude_def origin_longitude_def
      example_casts_def tie_db_def find_by_blood_group_def searchRadiusKm_def meera_row_def
      ravi_row_def)

lemma tie_search:
  "search_donors example_casts tie_db delhi_query
     (Inr [select_row ravi_row example_km, select_row meera_row example_km])"
  unfolding search_donors_Inr tie_rows
  by (simp add: missing_search_def query_param_def delhi_query_def tie_db_def select_row_def)

lemma cape_rows:
  "select_having (origin_latitude example_casts cape_query)
     (origin_longitude example_casts cape_query) searchRadiusKm
     (find_by_blood_group (query_text cape_query ''bloodGroup'') (donors cape_db))
   = []"
  using distance_expr_8 [of "77.2090"]
  by (simp add: query_text_def cape_query_def origin_latitude_def origin_longitude_def
      example_casts_def cape_db_def find_by_blood_group_def cape_row_def)

lemma cape_search: "search_donors example_casts cape_db cape_query resp \<longleftrightarrow> resp = Inr []"
proof -
  have "\<not> missing_search cape_query" and "online cape_db"
    by (simp_all add: missing_search_def query_param_def cape_query_def cape_db_def)
  then show ?thesis
    using cape_rows
    by (cases resp) (auto simp: search_donors_def search_query_def order_by_distance_def)
qed

lemma missing_search_iff:
  "missing_search q \<longleftrightarrow>
     q ''latitude'' \<in> {None, Some []} \<or> q ''longitude'' \<in> {None, Some []}
     \<or> q ''bloodGroup'' \<in> {None, Some []}"
  by (auto simp: missing_search_def query_param_def split: option.splits)



section \<open>Registrations\<close>

lemma insert_values_Some:
  assumes "insert_values cs i body = Some r"
  shows "as_varchar cs 20 (body ''phone'') = Some (phone r)"
    and "as_varchar cs 3 (body ''bloodGroup'') = Some (bloodGroup r)"
    and "donorId r = i"
  using assms by (auto simp: insert_values_def split: Option.bind_splits)

lemma insert_values_phone_eq:
  assumes "insert_values cs i b1 = Some r1" and "insert_values cs j b2 = Some r2"
    and "as_varchar cs 20 (b2 ''phone'') = as_varchar cs 20 (b1 ''phone'')"
  shows "phone r2 = phone r1"
  using assms insert_values_Some(1) [of cs i b1 r1] insert_values_Some(1) [of cs j b2 r2] by simp

lemma register_donor_Inr:
  "register_donor cs d body = (Inr i, d') \<longleftrightarrow>
     \<not> missing_required body \<and> online d
     \<and> (\<exists>r. insert_values cs (next_id d) body = Some r
            \<and> phone r \<notin> set (map phone (donors d)) \<and> i = next_id d
            \<and> d' = d\<lparr>donors := donors d @ [r], next_id := Suc (next_id d)\<rparr>)"
  by (auto simp: register_donor_def insert_query_def split: option.splits)

lemma register_donor_cases:
  "snd (register_donor cs d body) = d
   \<or> (\<exists>r. phone r \<notin> set (map phone (donors d))
          \<and> snd (register_donor cs d body) = d\<lparr>donors := donors d @ [r], next_id := Suc (next_id d)\<rparr>)"
  by (auto simp: register_donor_def insert_query_def split: option.splits)

lemma register_donor_distinct:
  assumes "distinct (map phone (donors d))"
  shows "distinct (map phone (donors (snd (register_donor cs d body))))"
  using register_donor_cases [of cs d body] assms by auto

lemma register_all_distinct:
  "distinct (map phone (donors d)) \<Longrightarrow> distinct (map phone (donors (register_all cs d bs)))"
  by (induction bs arbitrary: d) (simp_all add: register_donor_distinct)

text \<open>Registrations only append: the rows stored stay, in their places, and the server stays up.\<close>

lemma register_donor_grows:
  "online (snd (register_donor cs d body)) = online d
   \<and> (\<exists>rs. donors (snd (register_donor cs d body)) = donors d @ rs)"
  using register_donor_cases [of cs d body] by auto

lemma register_all_grows:
  "online (register_all cs d bs) = online d
   \<and> (\<exists>rs. donors (register_all cs d bs) = donors d @ rs)"
proof (induction bs arbitrary: d)
  case Nil
  then show ?case by simp
next
  case (Cons b bs)
  obtain rs where "donors (snd (register_donor cs d b)) = donors d @ rs"
    and "online (snd (register_donor cs d b)) = online d"
    using register_donor_grows [of cs d b] by blast
  moreover obtain rs' where
    "donors (register_all cs (snd (register_donor cs d b)) bs)
       = donors (snd (register_donor cs d b)) @ rs'"
    and "online (register_all cs (snd (register_donor cs d b)) bs)
       = online (snd (register_donor cs d b))"
    using Cons.IH [of "snd (register_donor cs d b)"] by blast
  ultimately show ?case by simp
qed

lemma register_asha:
  "register_donor example_casts initializeDatabase asha
     = (Inr 1, \<lparr>donors = [asha_row], next_id = 2, online = True\<rparr>)"
  by (simp add: register_donor_def missing_required_def insert_query_def insert_values_def
      initializeDatabase_def asha_def obj_def example_casts_def asha_row_def)


lemma truthy_iff: "truthy v \<longleftrightarrow> v \<notin> {JUndefined, JNull, JBool False, JNum 0, JStr []}"
  by (cases v) auto

lemma missing_required_iff:
  "missing_required body \<longleftrightarrow>
     (\<exists>k \<in> set [''name'', ''age'', ''bloodGroup'', ''phone'', ''latitude'', ''longitude''].
        body k \<in> {JUndefined, JNull, JBool False, JNum 0, JStr []})"
  unfolding missing_required_def truthy_iff by simp

lemma respond_not_validation: "fst (respond x) \<noteq> Inl ValidationError"
  by (cases x rule: respond.cases) simp_all

section \<open>Claims about the distance\<close>




text \<open>
  Claim C5 does not hold of the code. The query takes the arc cosine of the cosine as
  computed, with no clamp. For a point at latitude 8, whatever its longitude, the cosine
  the query computes between the point and itself is \<open>1 + 1 / 2 ^ 52\<close>, the next double above 1:
  the distance is \<^verbatim>\<open>NULL\<close>, where the clamped cosine gives 0 and the great-circle
  distance is 0. A search from (8, 77.2090) for the donor stored at that point has one
  answer, the empty sequence.
\<close>

theorem self_distance_null:
  "acos_arg (dbl 8) (dbl lon) (dbl 8) (dbl lon) = 1 + 1 / 2 ^ 52
   \<and> distance_expr 8 lon 8 lon = None
   \<and> distance_of_cosine (spec_clamp (acos_arg (dbl 8) (dbl lon) (dbl 8) (dbl lon))) = Some 0
   \<and> spec_distance 8 lon 8 lon = 0
   \<and> (search_donors example_casts cape_db cape_query resp \<longleftrightarrow> resp = Inr [])"
proof -
  have arg: "acos_arg (dbl 8) (dbl lon) (dbl 8) (dbl lon) = 1 + 1 / 2 ^ 52"
    by (simp add: dbl_8 acos_arg_8)
  have "distance_of_cosine (spec_clamp (acos_arg (dbl 8) (dbl lon) (dbl 8) (dbl lon))) = Some 0"
    unfolding arg by (simp add: spec_clamp_def distance_of_cosine_def sql_acos_def dbl_0)
  with arg distance_expr_8 [of lon] spec_distance_self [of 8 lon] cape_search [of resp]
  show ?thesis
    by blast
qed

theorem self_distance_null_witness:
  "latitude cape_row = 8 \<and> longitude cape_row = 77.2090
   \<and> origin_latitude example_casts cape_query = 8
   \<and> origin_longitude example_casts cape_query = 77.2090
   \<and> distance_expr 8 77.2090 8 77.2090 = None
   \<and> spec_distance 8 77.2090 8 77.2090 = 0
   \<and> search_donors example_casts cape_db cape_query (Inr [])
   \<and> \<not> search_donors example_casts cape_db cape_query
         (Inr [select_row cape_row 0])"
  using self_distance_null [of "77.2090" "Inr []"]
    self_distance_null [of "77.2090" "Inr [select_row cape_row 0]"]
  by (simp add: cape_row_def cape_query_def origin_latitude_def origin_longitude_def
      query_text_def example_casts_def)

text \<open>
  Claim C6. The distance the search computes is symmetric: the distance from A to B is
  the distance from B to A.
\<close>

theorem distance_symmetric:
  "distance_expr lat1 lon1 lat2 lon2 = distance_expr lat2 lon2 lat1 lon1"
  by (simp add: distance_expr_def acos_arg_sym [of "dbl lat1" "dbl lon1" "dbl lat2" "dbl lon2"])

theorem distance_symmetric_witness:
  "distance_expr 28.6139 77.2090 28.7041 77.1025 = distance_expr 28.7041 77.1025 28.6139 77.2090"
  by (rule distance_symmetric)

section \<open>Claims about the search\<close>

text \<open>
  Claim C2, as the code has it. A search returns exactly the donors of the requested blood
  group whose computed distance from the origin is strictly less than 15 km, each once,
  so a donor at exactly 15 km is left out; the distances of the returned sequence do not
  decrease. The query orders by the distance alone: the order of donors at equal distance
  is not fixed. The stable order, which keeps donors at equal distance as the table has
  them, is one of the answers the query admits.
\<close>

theorem search_filters_and_orders:
  assumes "search_donors cs d q (Inr out)"
  shows "mset out = mset (select_having (origin_latitude cs q) (origin_longitude cs q) 15
                            (find_by_blood_group (query_text q ''bloodGroup'') (donors d)))
         \<and> (\<forall>m. m \<in> set out \<longleftrightarrow>
               (\<exists>r \<in> set (donors d). bloodGroup r = query_text q ''bloodGroup''
                  \<and> (\<exists>x. distance_expr (origin_latitude cs q) (origin_longitude cs q)
                            (latitude r) (longitude r) = Some x
                        \<and> x < 15 \<and> m = select_row r x)))
         \<and> (\<forall>m \<in> set out. distance m < 15)
         \<and> (\<forall>r \<in> set (donors d). select_row r 15 \<notin> set out)
         \<and> sorted (map distance out)
         \<and> search_donors cs d q (Inr (search_stable cs d q))
         \<and> filter (\<lambda>m. distance m = k) (search_stable cs d q)
             = filter (\<lambda>m. distance m = k)
                 (select_having (origin_latitude cs q) (origin_longitude cs q) 15
                    (find_by_blood_group (query_text q ''bloodGroup'') (donors d)))"
proof -
  have "\<not> missing_search q" and "online d"
    and found: "mset out = mset (select_having (origin_latitude cs q) (origin_longitude cs q)
                   searchRadiusKm (find_by_blood_group (query_text q ''bloodGroup'') (donors d)))"
    and ordered: "sorted (map distance out)"
    using assms unfolding search_donors_Inr by simp_all
  then have stable: "search_donors cs d q (Inr (search_stable cs d q))"
    by (simp add: search_stable_response)
  have member: "\<forall>m. m \<in> set out \<longleftrightarrow>
               (\<exists>r \<in> set (donors d). bloodGroup r = query_text q ''bloodGroup''
                  \<and> (\<exists>x. distance_expr (origin_latitude cs q) (origin_longitude cs q)
                            (latitude r) (longitude r) = Some x
                        \<and> x < 15 \<and> m = select_row r x))"
    using search_donors_member [OF assms] by blast
  then have near: "\<forall>m \<in> set out. distance m < 15"
    by (auto simp: select_row_def)
  then have boundary: "\<forall>r \<in> set (donors d). select_row r 15 \<notin> set out"
    by (auto simp: select_row_def)
  have ties: "filter (\<lambda>m. distance m = k) (search_stable cs d q)
             = filter (\<lambda>m. distance m = k)
                 (select_having (origin_latitude cs q) (origin_longitude cs q) 15
                    (find_by_blood_group (query_text q ''bloodGroup'') (donors d)))"
    by (simp add: search_stable_def searchRadiusKm_def sort_key_stable)
  from found ordered stable member near boundary ties show ?thesis
    by (simp add: searchRadiusKm_def)
qed

theorem search_filters_and_orders_witness:
  "search_donors example_casts tie_db delhi_query
     (Inr [select_row ravi_row example_km, select_row meera_row example_km])
   \<and> mset [select_row ravi_row example_km, select_row meera_row example_km]
       = mset (select_having (origin_latitude example_casts delhi_query)
                 (origin_longitude example_casts delhi_query) 15
                 (find_by_blood_group (query_text delhi_query ''bloodGroup'') (donors tie_db)))
   \<and> sorted (map distance [select_row ravi_row example_km, select_row meera_row example_km])
   \<and> select_row meera_row 15 \<notin> set [select_row ravi_row example_km, select_row meera_row example_km]
   \<and> search_donors example_casts tie_db delhi_query
        (Inr (search_stable example_casts tie_db delhi_query))"
  using search_filters_and_orders [OF tie_search] tie_search
  by (simp add: tie_db_def)

text \<open>
  Two donors at the same distance can be returned against their order in the table: the
  answer below is admitted, and it lists the two rows found in the opposite order.
\<close>

theorem tie_order_counterexample:
  "search_donors example_casts tie_db delhi_query
     (Inr [select_row ravi_row example_km, select_row meera_row example_km])
   \<and> select_having (origin_latitude example_casts delhi_query)
        (origin_longitude example_casts delhi_query) searchRadiusKm
        (find_by_blood_group (query_text delhi_query ''bloodGroup'') (donors tie_db))
       = [select_row meera_row example_km, select_row ravi_row example_km]
   \<and> distance (select_row ravi_row example_km) = distance (select_row meera_row example_km)
   \<and> select_row ravi_row example_km \<noteq> select_row meera_row example_km"
  using tie_search tie_rows
  by (simp add: select_row_def meera_row_def ravi_row_def)

text \<open>
  Claim C8, as the code has it. A search fails with \<open>ValidationError\<close> exactly when the
  latitude, the longitude or the blood group is absent from the query or empty. The
  range of the origin is not checked.
\<close>

theorem search_validation_is_presence:
  "(search_donors cs d q (Inl ValidationError) \<longleftrightarrow>
      q ''latitude'' \<in> {None, Some []} \<or> q ''longitude'' \<in> {None, Some []}
      \<or> q ''bloodGroup'' \<in> {None, Some []})
   \<and> (search_donors cs d q (Inl ValidationError) \<longleftrightarrow> missing_search q)"
  using missing_search_iff [of q] by (simp add: search_donors_def)

theorem search_validation_is_presence_witness:
  "search_donors example_casts initializeDatabase (delhi_query(''latitude'' := None))
     (Inl ValidationError)
   \<and> missing_search (delhi_query(''latitude'' := None))
   \<and> \<not> search_donors example_casts initializeDatabase delhi_query (Inl ValidationError)"
proof -
  have "(delhi_query(''latitude'' := None)) ''latitude'' \<in> {None, Some []}"
    and "\<not> (delhi_query ''latitude'' \<in> {None, Some []} \<or> delhi_query ''longitude'' \<in> {None, Some []}
          \<or> delhi_query ''bloodGroup'' \<in> {None, Some []})"
    by (simp_all add: delhi_query_def)
  with search_validation_is_presence [of example_casts initializeDatabase
      "delhi_query(''latitude'' := None)"]
    search_validation_is_presence [of example_casts initializeDatabase delhi_query]
  show ?thesis by blast
qed

text \<open>
  A search from latitude 100 is not refused: it is run, and answers with the empty
  sequence on an empty table.
\<close>

theorem out_of_range_origin_counterexample:
  "origin_latitude example_casts far_north_query = 100
   \<and> \<not> search_donors example_casts initializeDatabase far_north_query (Inl ValidationError)
   \<and> search_donors example_casts initializeDatabase far_north_query (Inr [])"
  by (simp add: search_donors_def missing_search_def query_param_def query_text_def
      far_north_query_def origin_latitude_def example_casts_def initializeDatabase_def
      search_query_def order_by_distance_def find_by_blood_group_def)

text \<open>
  Claim C9. When no stored donor has the blood group asked for, whatever text it is, a
  search that names its three parameters on an answering server returns the empty
  sequence, and nothing else: it is a result, not a failure.
\<close>

theorem no_match_empty_result:
  assumes "\<forall>r \<in> set (donors d). bloodGroup r \<noteq> query_text q ''bloodGroup''"
    and "\<not> missing_search q" and "online d"
  shows "find_by_blood_group (query_text q ''bloodGroup'') (donors d) = []
         \<and> (search_donors cs d q resp \<longleftrightarrow> resp = Inr [])"
proof -
  have none: "find_by_blood_group (query_text q ''bloodGroup'') (donors d) = []"
    using assms(1) by (simp add: find_by_blood_group_def)
  have "search_donors cs d q resp \<longleftrightarrow> resp = Inr []"
    using assms(2,3) none
    by (cases resp) (auto simp: search_donors_def search_query_def order_by_distance_def)
  with none show ?thesis by simp
qed

theorem no_match_empty_result_witness:
  "find_by_blood_group ''O-'' [asha_row] = []
   \<and> \<not> missing_search o_negative_query
   \<and> search_donors example_casts \<lparr>donors = [asha_row], next_id = 2, online = True\<rparr>
        o_negative_query (Inr [])
   \<and> \<not> search_donors example_casts \<lparr>donors = [asha_row], next_id = 2, online = True\<rparr>
        o_negative_query (Inl StorageError)"
proof -
  have "\<forall>r \<in> set (donors \<lparr>donors = [asha_row], next_id = 2, online = True\<rparr>).
          bloodGroup r \<noteq> query_text o_negative_query ''bloodGroup''"
    and present: "\<not> missing_search o_negative_query"
    and "online \<lparr>donors = [asha_row], next_id = 2, online = True\<rparr>"
    by (simp_all add: asha_row_def query_text_def o_negative_query_def missing_search_def
        query_param_def)
  from no_match_empty_result [OF this, of example_casts] present show ?thesis
    by (simp add: query_text_def o_negative_query_def)
qed

section \<open>Claims about the registry\<close>

text \<open>
  Claim C3, as the code has it. After a registration has succeeded, a registration with
  the same phone number fails and leaves the stored rows as they were, whether it is
  served next or after any further registrations, and the first donor's row is still
  stored. It fails with \<open>DuplicateDonorError\<close> when it names every required field and its
  values fit the columns, with \<open>ValidationError\<close> when it lacks a required field, and with
  \<open>StorageError\<close> when the columns reject its values. Whatever registrations are served
  from the empty table, no two stored donors share a phone number.
\<close>

theorem duplicate_phone_rejected:
  assumes "register_donor cs d b1 = (Inr i, d1)"
    and "as_varchar cs 20 (b2 ''phone'') = as_varchar cs 20 (b1 ''phone'')"
  shows "(\<exists>e. fst (register_donor cs (register_all cs d1 bs) b2) = Inl e)
         \<and> donors (snd (register_donor cs (register_all cs d1 bs) b2))
             = donors (register_all cs d1 bs)
         \<and> (\<not> missing_required b2
              \<and> insert_values cs (next_id (register_all cs d1 bs)) b2 \<noteq> None
              \<longrightarrow> fst (register_donor cs (register_all cs d1 bs) b2) = Inl DuplicateDonorError)
         \<and> (missing_required b2
              \<longrightarrow> fst (register_donor cs (register_all cs d1 bs) b2) = Inl ValidationError)
         \<and> (\<not> missing_required b2
              \<and> insert_values cs (next_id (register_all cs d1 bs)) b2 = None
              \<longrightarrow> fst (register_donor cs (register_all cs d1 bs) b2) = Inl StorageError)
         \<and> (\<exists>r1. insert_values cs (next_id d) b1 = Some r1 \<and> donorId r1 = i
                \<and> r1 \<in> set (donors (snd (register_donor cs (register_all cs d1 bs) b2))))
         \<and> (distinct (map phone (donors d))
              \<longrightarrow> distinct (map phone (donors (snd (register_donor cs (register_all cs d1 bs) b2)))))
         \<and> distinct (map phone (donors (register_all cs initializeDatabase bs')))"
proof -
  let ?d2 = "register_all cs d1 bs"
  obtain r1 where r1: "insert_values cs (next_id d) b1 = Some r1"
    and d1: "d1 = d\<lparr>donors := donors d @ [r1], next_id := Suc (next_id d)\<rparr>"
    and on: "online d" and i: "i = next_id d"
    using assms(1) unfolding register_donor_Inr by blast
  obtain rs where rs: "donors ?d2 = donors d1 @ rs" and on2: "online ?d2"
    using register_all_grows [of cs d1 bs] on by (auto simp: d1)
  have "donors d1 = donors d @ [r1]"
    by (simp add: d1)
  then have stored: "r1 \<in> set (donors ?d2)"
    unfolding rs by simp
  have dup: "phone r2 \<in> set (map phone (donors ?d2))"
    if "insert_values cs (next_id ?d2) b2 = Some r2" for r2
    using insert_values_phone_eq [OF r1 that assms(2)] stored by force
  have "\<exists>e. register_donor cs ?d2 b2 = (Inl e, ?d2)"
    using dup on2 by (auto simp: register_donor_def insert_query_def split: option.splits)
  then have fails: "\<exists>e. fst (register_donor cs ?d2 b2) = Inl e"
    and same: "snd (register_donor cs ?d2 b2) = ?d2"
    by auto
  have which: "fst (register_donor cs ?d2 b2) = Inl DuplicateDonorError"
    if "\<not> missing_required b2" and "insert_values cs (next_id ?d2) b2 \<noteq> None"
    using that dup on2 by (auto simp: register_donor_def insert_query_def split: option.splits)
  have absent: "fst (register_donor cs ?d2 b2) = Inl ValidationError" if "missing_required b2"
    using that by (simp add: register_donor_def)
  have unfit: "fst (register_donor cs ?d2 b2) = Inl StorageError"
    if "\<not> missing_required b2" and "insert_values cs (next_id ?d2) b2 = None"
    using that on2 by (simp add: register_donor_def insert_query_def)
  have first: "\<exists>r1. insert_values cs (next_id d) b1 = Some r1 \<and> donorId r1 = i
                 \<and> r1 \<in> set (donors (snd (register_donor cs ?d2 b2)))"
    using r1 stored insert_values_Some(3) [OF r1] by (auto simp: same i)
  have one: "distinct (map phone (donors (snd (register_donor cs ?d2 b2))))"
    if "distinct (map phone (donors d))"
  proof -
    have "distinct (map phone (donors d1))"
      using register_donor_distinct [OF that, of cs b1] assms(1) by simp
    then show ?thesis
      unfolding same by (rule register_all_distinct)
  qed
  have "distinct (map phone (donors (register_all cs initializeDatabase bs')))"
    by (rule register_all_distinct) (simp add: initializeDatabase_def)
  with fails same which absent unfit first one show ?thesis
    by simp
qed

theorem duplicate_phone_rejected_witness:
  "register_donor example_casts initializeDatabase asha
     = (Inr 1, \<lparr>donors = [asha_row], next_id = 2, online = True\<rparr>)
   \<and> register_all example_casts \<lparr>donors = [asha_row], next_id = 2, online = True\<rparr> [meera]
       = \<lparr>donors = [asha_row, meera_row\<lparr>donorId := 2\<rparr>], next_id = 3, online = True\<rparr>
   \<and> fst (register_donor example_casts
            \<lparr>donors = [asha_row, meera_row\<lparr>donorId := 2\<rparr>], next_id = 3, online = True\<rparr>
            asha_second) = Inl DuplicateDonorError
   \<and> donors (snd (register_donor example_casts
                    \<lparr>donors = [asha_row, meera_row\<lparr>donorId := 2\<rparr>], next_id = 3, online = True\<rparr>
                    asha_second))
       = [asha_row, meera_row\<lparr>donorId := 2\<rparr>]
   \<and> distinct (map phone [asha_row, meera_row\<lparr>donorId := 2\<rparr>])
   \<and> distinct (map phone (donors (register_all example_casts initializeDatabase
                                      [asha, meera, asha_second])))"
proof -
  let ?d1 = "\<lparr>donors = [asha_row], next_id = 2, online = True\<rparr>"
  let ?d2 = "\<lparr>donors = [asha_row, meera_row\<lparr>donorId := 2\<rparr>], next_id = 3, online = True\<rparr>"
  have later: "register_all example_casts ?d1 [meera] = ?d2"
    by (simp add: register_donor_def missing_required_def insert_query_def insert_values_def
        meera_def obj_def example_casts_def meera_row_def asha_row_def)
  have same: "as_varchar example_casts 20 (asha_second ''phone'')
                = as_varchar example_casts 20 (asha ''phone'')"
    by (simp add: asha_def asha_second_def obj_def)
  have ok: "\<not> missing_required asha_second"
    "insert_values example_casts (next_id ?d2) asha_second \<noteq> None"
    by (simp_all add: missing_required_def insert_values_def asha_second_def obj_def
        example_casts_def)
  have empty: "distinct (map phone (donors initializeDatabase))"
    by (simp add: initializeDatabase_def)
  from duplicate_phone_rejected [of example_casts initializeDatabase asha 1 ?d1 asha_second
      "[meera]" "[asha, meera, asha_second]"]
    register_asha same ok empty
  show ?thesis
    unfolding later by (simp add: asha_row_def meera_row_def)
qed

text \<open>
  A second registration under the first one's phone number that lacks the name fails the
  presence check: the failure is \<open>ValidationError\<close>, not \<open>DuplicateDonorError\<close>.
\<close>

theorem duplicate_without_name_counterexample:
  "register_donor example_casts initializeDatabase asha
     = (Inr 1, \<lparr>donors = [asha_row], next_id = 2, online = True\<rparr>)
   \<and> (asha_second(''name'' := JUndefined)) ''phone'' = asha ''phone''
   \<and> register_donor example_casts \<lparr>donors = [asha_row], next_id = 2, online = True\<rparr>
        (asha_second(''name'' := JUndefined))
       = (Inl ValidationError, \<lparr>donors = [asha_row], next_id = 2, online = True\<rparr>)"
  using register_asha
  by (simp add: register_donor_def missing_required_def asha_def asha_second_def obj_def)

text \<open>
  Claim C4, as the code has it. A registration in which the name, the age, the blood
  group, the phone, the latitude or the longitude is absent, \<^verbatim>\<open>null\<close>, \<^verbatim>\<open>false\<close>, the number 0
  or the empty string fails with \<open>ValidationError\<close>, and the state is returned untouched.
  That is the whole check: a registration that names all eight fields goes to the insert
  whatever its values are, and its outcome is the insert's.
\<close>

theorem register_validation:
  "(missing_required body \<longleftrightarrow>
      (\<exists>k \<in> set [''name'', ''age'', ''bloodGroup'', ''phone'', ''latitude'', ''longitude''].
         body k \<in> {JUndefined, JNull, JBool False, JNum 0, JStr []}))
   \<and> (missing_required body \<longrightarrow> register_donor cs d body = (Inl ValidationError, d))
   \<and> (\<not> missing_required body \<and> truthy (body ''email'') \<and> truthy (body ''address'')
        \<longrightarrow> register_donor cs d body = respond (insert_query cs d body)
            \<and> fst (register_donor cs d body) \<noteq> Inl ValidationError)"
  using missing_required_iff [of body] respond_not_validation [of "insert_query cs d body"]
  by (simp add: register_donor_def)

theorem register_validation_witness:
  "missing_required (asha(''name'' := JUndefined))
   \<and> register_donor example_casts initializeDatabase (asha(''name'' := JUndefined))
       = (Inl ValidationError, initializeDatabase)
   \<and> \<not> missing_required asha \<and> truthy (asha ''email'') \<and> truthy (asha ''address'')
   \<and> register_donor example_casts initializeDatabase asha
       = respond (insert_query example_casts initializeDatabase asha)
   \<and> fst (register_donor example_casts initializeDatabase asha) \<noteq> Inl ValidationError"
proof -
  have "missing_required (asha(''name'' := JUndefined))"
    and "\<not> missing_required asha" and "truthy (asha ''email'')" and "truthy (asha ''address'')"
    by (simp_all add: missing_required_def asha_def obj_def)
  with register_validation [of "asha(''name'' := JUndefined)" example_casts initializeDatabase]
    register_validation [of asha example_casts initializeDatabase]
  show ?thesis by blast
qed

text \<open>
  A negative age, a latitude of 95 and a longitude of 200 pass the check, and the row is
  written.
\<close>

theorem malformed_registration_counterexample:
  "malformed ''age'' = JNum (- 5) \<and> malformed ''latitude'' = JNum 95
   \<and> malformed ''longitude'' = JNum 200
   \<and> register_donor example_casts initializeDatabase malformed
       = (Inr 1, \<lparr>donors = [malformed_row], next_id = 2, online = True\<rparr>)"
  by (simp add: register_donor_def missing_required_def insert_query_def insert_values_def
      initializeDatabase_def malformed_def asha_def obj_def example_casts_def malformed_row_def
      asha_row_def)



text \<open>
  Claim C10. A registration whose latitude, longitude or age is the number 0 fails the
  presence check as a registration without that field does: \<open>ValidationError\<close>, and the
  state is returned untouched.
\<close>

theorem zero_field_rejected:
  assumes "body ''latitude'' = JNum 0 \<or> body ''longitude'' = JNum 0 \<or> body ''age'' = JNum 0"
  shows "missing_required body \<and> register_donor cs d body = (Inl ValidationError, d)"
proof -
  have "missing_required body"
    using assms unfolding missing_required_def by auto
  then show ?thesis
    by (simp add: register_donor_def)
qed

theorem zero_field_rejected_witness:
  "(asha(''latitude'' := JNum 0)) ''latitude'' = JNum 0
   \<and> missing_required (asha(''latitude'' := JNum 0))
   \<and> register_donor example_casts initializeDatabase (asha(''latitude'' := JNum 0))
       = (Inl ValidationError, initializeDatabase)"
  using zero_field_rejected [of "asha(''latitude'' := JNum 0)" example_casts initializeDatabase]
  by simp

end
